theory Spec2Isabelle
  imports Main "HOL-Library.AList" "HOL-Library.Char_ord" "HOL-Library.List_Lexorder"
begin

section \<open>Errors\<close>

text \<open>
  Every exception the modelled code can raise is a value. \<open>AssertionError\<close> is what the
  \<^verbatim>\<open>assert\<close> of \<^verbatim>\<open>Account.number\<close> raises (the specification calls this
  failure UnsupportedAccountError); \<open>KeyError k\<close> is a dictionary subscript with the
  absent key \<open>k\<close>; \<open>IndexError\<close> is a list subscript out of range;
  \<open>RequestError m\<close> stands for whatever \<^verbatim>\<open>requests.get\<close> or the decoding of
  its body raises, the inventory service being an external collaborator.
\<close>

datatype error = AssertionError | KeyError string | IndexError | RequestError string

section \<open>account.py\<close>

record Account =
  name :: string

text \<open>
  The table local to \<^verbatim>\<open>Account.number\<close>, a dictionary literal, and a dictionary
  subscript that raises on an absent key.
\<close>

definition accountnumber :: "(string \<times> string) list" where
  "accountnumber = [(''prod'', ''1234567890''), (''test'', ''0123456789'')]"

definition getitem :: "(string \<times> 'v) list \<Rightarrow> string \<Rightarrow> error + 'v" where
  "getitem d k = (case map_of d k of None \<Rightarrow> Inl (KeyError k) | Some v \<Rightarrow> Inr v)"

text \<open>
  The property \<^verbatim>\<open>number\<close>: the assertion comes first, the lookup in the table
  second.
\<close>

definition number :: "Account \<Rightarrow> error + string" where
  "number self =
     (let accountname = Account.name self in
      if \<not> (accountname = ''prod'' \<or> accountname = ''test'') then Inl AssertionError
      else getitem accountnumber accountname)"

text \<open>
  The constructor stores the name and then builds its debug message with
  \<^verbatim>\<open>str.format\<close>, whose arguments, \<^verbatim>\<open>self.number\<close> among them, are evaluated
  before \<^verbatim>\<open>logger.debug\<close> is called, whatever the logging level.
\<close>

definition Account_init :: "string \<Rightarrow> error + Account" where
  "Account_init nm =
     (let self = \<lparr>name = nm\<rparr> in
      case number self of Inl e \<Rightarrow> Inl e | Inr _ \<Rightarrow> Inr self)"

section \<open>utils.py\<close>

text \<open>
  \<^verbatim>\<open>flatten(self, deeplist)\<close> is a module-level function that still takes a first
  parameter \<^verbatim>\<open>self\<close>, which its body never reads. The body is the comprehension
  \<^verbatim>\<open>[item for sublist in deeplist for item in sublist]\<close>.
\<close>

definition flatten :: "'s \<Rightarrow> 'a list list \<Rightarrow> 'a list" where
  "flatten self deeplist = concat (map (\<lambda>sublist. map (\<lambda>item. item) sublist) deeplist)"

text \<open>
  \<^verbatim>\<open>gen_nums\<close> is a generator function. A generator object is modelled by the value
  of its local \<^verbatim>\<open>n\<close> at the head of the loop; calling \<^verbatim>\<open>gen_nums()\<close> creates one
  with \<^verbatim>\<open>n = 1\<close>. \<open>gen_next\<close> is one \<^verbatim>\<open>next()\<close>: the value yielded and the
  generator afterwards, or \<open>None\<close> for StopIteration. \<open>consume\<close> is
  \<^verbatim>\<open>list(g)\<close>.
\<close>

type_synonym generator = int

definition gen_nums :: "unit \<Rightarrow> generator" where
  "gen_nums u = 1"

definition gen_next :: "generator \<Rightarrow> (int \<times> generator) option" where
  "gen_next n = (if n < 10 then Some (n, n + 2) else None)"

function consume :: "generator \<Rightarrow> int list" where
  "consume g = (case gen_next g of None \<Rightarrow> [] | Some (v, g') \<Rightarrow> v # consume g')"
  by pat_completeness auto
termination
  by (relation "measure (\<lambda>g. nat (10 - g))") (auto simp: gen_next_def split: if_splits)

declare consume.simps [simp del]

section \<open>app.py\<close>

subsection \<open>The inventory service\<close>

text \<open>
  The two URL templates, filled by \<^verbatim>\<open>str.format\<close>.
\<close>

definition CLUSTERS_URL :: "string \<Rightarrow> string" where
  "CLUSTERS_URL application =
     ''https://INTERNALTOOL/applications/'' @ application @ ''/clusters''"

definition CLUSTERDETAILS_URL :: "string \<Rightarrow> string \<Rightarrow> string \<Rightarrow> string" where
  "CLUSTERDETAILS_URL application account clustername =
     ''https://INTERNALTOOL/applications/'' @ application @ ''/clusters/'' @ account
       @ ''/'' @ clustername"

text \<open>
  Decoded response bodies. The body of the cluster listing is a dictionary from account
  names to lists of cluster names. The body of a cluster's details is a dictionary read
  by key: the keys the code subscripts are the fields below, \<open>None\<close> where the key is
  absent from the object, so that every subscript can raise \<open>KeyError\<close>. Values that are
  present have the types the service documents (strings, lists of objects); in
  particular a listing never maps an account to \<^verbatim>\<open>null\<close>, the one value that the
  test \<^verbatim>\<open>is None\<close> of the properties could not tell from an attribute not yet
  computed. Strings are compared character by character, as Python compares code points.
\<close>

record Instance =
  key_instanceId :: "string option"

record ServerGroup =
  key_name :: "string option"
  key_region :: "string option"
  key_instances :: "Instance list option"

record ClusterDetail =
  key_serverGroups :: "ServerGroup list option"

definition subscript :: "'v option \<Rightarrow> string \<Rightarrow> error + 'v" where
  "subscript field k = (case field of None \<Rightarrow> Inl (KeyError k) | Some v \<Rightarrow> Inr v)"

text \<open>
  \<^verbatim>\<open>requests.get(url).json()\<close> at its two call sites. The service is outside the
  program: its answer may depend on the URL and on every request issued before, the list
  of which (the request log) is the only state of the network the model keeps. An answer
  is an error (the request or the decoding raised) or the decoded body.
\<close>

record backend =
  get_clusters :: "string list \<Rightarrow> string \<Rightarrow> error + (string \<times> string list) list"
  get_clusterdetails :: "string list \<Rightarrow> string \<Rightarrow> error + ClusterDetail"

subsection \<open>The class App\<close>

text \<open>
  A server group as the third stage appends it: \<^verbatim>\<open>[region, group, instances]\<close>.
\<close>

type_synonym servergroup = "string \<times> string \<times> string list"

text \<open>
  The four private attributes are \<open>None\<close> until their property has been computed.
  Dictionaries keep insertion order, and an assignment to a key that is present replaces
  the value in place: an association list with \<open>AList.update\<close>.
\<close>

record App =
  name :: string
  account :: Account
  clusternames_slot :: "string list option"
  clusterdetails_slot :: "(string \<times> ClusterDetail) list option"
  servergroups_slot :: "servergroup list option"
  instances_by_region_slot :: "(string \<times> string list) list option"

definition App_init :: "string \<Rightarrow> Account \<Rightarrow> App" where
  "App_init nm acct =
     \<lparr>name = nm, account = acct, clusternames_slot = None, clusterdetails_slot = None,
      servergroups_slot = None, instances_by_region_slot = None\<rparr>"

definition dict_set :: "'k \<Rightarrow> 'v \<Rightarrow> ('k \<times> 'v) list \<Rightarrow> ('k \<times> 'v) list" where
  "dict_set k v d = AList.update k v d"

text \<open>
  Each property takes the object and the request log and returns the value or the error,
  the object afterwards and the log afterwards. \<open>clusternames_compute\<close> is the body of
  the \<^verbatim>\<open>if self.__clusternames is None\<close>.
\<close>

definition clusternames_compute ::
  "backend \<Rightarrow> App \<Rightarrow> string list \<Rightarrow> (error + string list) \<times> App \<times> string list" where
  "clusternames_compute B self log =
     (let url = CLUSTERS_URL (App.name self) in
      case get_clusters B log url of
        Inl e \<Rightarrow> (Inl e, self, log @ [url])
      | Inr body \<Rightarrow>
          (case getitem body (Account.name (account self)) of
             Inl e \<Rightarrow> (Inl e, self, log @ [url])
           | Inr v \<Rightarrow> (Inr v, self\<lparr>clusternames_slot := Some v\<rparr>, log @ [url])))"

definition clusternames ::
  "backend \<Rightarrow> App \<Rightarrow> string list \<Rightarrow> (error + string list) \<times> App \<times> string list" where
  "clusternames B self log =
     (case clusternames_slot self of
        None \<Rightarrow> clusternames_compute B self log
      | Some v \<Rightarrow> (Inr v, self, log))"

text \<open>
  The loop of \<^verbatim>\<open>clusterdetails\<close>: one request for each cluster name, in list order,
  the answers collected in the local dictionary \<^verbatim>\<open>details\<close>.
\<close>

fun fetch_details ::
  "backend \<Rightarrow> App \<Rightarrow> string list \<Rightarrow> (string \<times> ClusterDetail) list \<Rightarrow> string list
     \<Rightarrow> (error + (string \<times> ClusterDetail) list) \<times> string list" where
  "fetch_details B self [] details log = (Inr details, log)"
| "fetch_details B self (clustername # rest) details log =
     (let url = CLUSTERDETAILS_URL (App.name self) (Account.name (account self)) clustername in
      case get_clusterdetails B log url of
        Inl e \<Rightarrow> (Inl e, log @ [url])
      | Inr body \<Rightarrow> fetch_details B self rest (dict_set clustername body details) (log @ [url]))"

definition clusterdetails_compute ::
  "backend \<Rightarrow> App \<Rightarrow> string list
     \<Rightarrow> (error + (string \<times> ClusterDetail) list) \<times> App \<times> string list" where
  "clusterdetails_compute B self log =
     (case clusternames B self log of
        (Inl e, self1, log1) \<Rightarrow> (Inl e, self1, log1)
      | (Inr names, self1, log1) \<Rightarrow>
          (case fetch_details B self1 names [] log1 of
             (Inl e, log2) \<Rightarrow> (Inl e, self1, log2)
           | (Inr details, log2) \<Rightarrow>
               (Inr details, self1\<lparr>clusterdetails_slot := Some details\<rparr>, log2)))"

definition clusterdetails ::
  "backend \<Rightarrow> App \<Rightarrow> string list
     \<Rightarrow> (error + (string \<times> ClusterDetail) list) \<times> App \<times> string list" where
  "clusterdetails B self log =
     (case clusterdetails_slot self of
        None \<Rightarrow> clusterdetails_compute B self log
      | Some v \<Rightarrow> (Inr v, self, log))"

text \<open>
  The loops of \<^verbatim>\<open>servergroups\<close>. The subscripts are evaluated in the order of the
  source: \<^verbatim>\<open>'name'\<close>, \<^verbatim>\<open>'region'\<close>, \<^verbatim>\<open>'instances'\<close>, then
  \<^verbatim>\<open>'instanceId'\<close> of each instance. The property reads \<^verbatim>\<open>self.clusterdetails\<close>
  once in the header of the outer loop and again in each round; the later reads find
  the attribute set and return the same dictionary, so the model reads it once.
\<close>

fun instance_ids :: "Instance list \<Rightarrow> error + string list" where
  "instance_ids [] = Inr []"
| "instance_ids (instance # rest) =
     (case subscript (key_instanceId instance) ''instanceId'' of
        Inl e \<Rightarrow> Inl e
      | Inr i \<Rightarrow> (case instance_ids rest of Inl e \<Rightarrow> Inl e | Inr ids \<Rightarrow> Inr (i # ids)))"

definition extract_element :: "ServerGroup \<Rightarrow> error + servergroup" where
  "extract_element element =
     (case subscript (key_name element) ''name'' of
        Inl e \<Rightarrow> Inl e
      | Inr g \<Rightarrow>
          (case subscript (key_region element) ''region'' of
             Inl e \<Rightarrow> Inl e
           | Inr r \<Rightarrow>
               (case subscript (key_instances element) ''instances'' of
                  Inl e \<Rightarrow> Inl e
                | Inr objs \<Rightarrow>
                    (case instance_ids objs of
                       Inl e \<Rightarrow> Inl e
                     | Inr ids \<Rightarrow> Inr (r, g, ids)))))"

fun extract_elements :: "ServerGroup list \<Rightarrow> servergroup list \<Rightarrow> error + servergroup list" where
  "extract_elements [] groups = Inr groups"
| "extract_elements (element # rest) groups =
     (case extract_element element of
        Inl e \<Rightarrow> Inl e
      | Inr t \<Rightarrow> extract_elements rest (groups @ [t]))"

fun extract_clusters ::
  "(string \<times> ClusterDetail) list \<Rightarrow> string list \<Rightarrow> servergroup list
     \<Rightarrow> error + servergroup list" where
  "extract_clusters details [] groups = Inr groups"
| "extract_clusters details (cluster # rest) groups =
     (case getitem details cluster of
        Inl e \<Rightarrow> Inl e
      | Inr payload \<Rightarrow>
          (case subscript (key_serverGroups payload) ''serverGroups'' of
             Inl e \<Rightarrow> Inl e
           | Inr elements \<Rightarrow>
               (case extract_elements elements groups of
                  Inl e \<Rightarrow> Inl e
                | Inr groups' \<Rightarrow> extract_clusters details rest groups')))"

definition servergroups_compute ::
  "backend \<Rightarrow> App \<Rightarrow> string list \<Rightarrow> (error + servergroup list) \<times> App \<times> string list" where
  "servergroups_compute B self log =
     (case clusterdetails B self log of
        (Inl e, self1, log1) \<Rightarrow> (Inl e, self1, log1)
      | (Inr details, self1, log1) \<Rightarrow>
          (case extract_clusters details (map fst details) [] of
             Inl e \<Rightarrow> (Inl e, self1, log1)
           | Inr groups \<Rightarrow> (Inr groups, self1\<lparr>servergroups_slot := Some groups\<rparr>, log1)))"

definition servergroups ::
  "backend \<Rightarrow> App \<Rightarrow> string list \<Rightarrow> (error + servergroup list) \<times> App \<times> string list" where
  "servergroups B self log =
     (case servergroups_slot self of
        None \<Rightarrow> servergroups_compute B self log
      | Some v \<Rightarrow> (Inr v, self, log))"

text \<open>
  \<^verbatim>\<open>itertools.groupby\<close>: the consecutive runs of equal key, each with the key of
  its first element.
\<close>

function groupby :: "('a \<Rightarrow> 'k) \<Rightarrow> 'a list \<Rightarrow> ('k \<times> 'a list) list" where
  "groupby key [] = []"
| "groupby key (x # xs) =
     (key x, x # takeWhile (\<lambda>y. key y = key x) xs)
       # groupby key (dropWhile (\<lambda>y. key y = key x) xs)"
  by pat_completeness auto
termination
  by (relation "measure (\<lambda>(key, xs). length xs)")
     (auto simp: length_dropWhile_le less_Suc_eq_le)

text \<open>
  The loop of \<^verbatim>\<open>instances_by_region\<close> over the runs:
  \<^verbatim>\<open>by_region[key] = list(value)[0][2]\<close>. The subscript \<^verbatim>\<open>[0]\<close> of an empty run
  would raise; \<^verbatim>\<open>sorted\<close> is the stable sort \<open>sort_key\<close>, on strings compared
  character by character.
\<close>

fun by_region_loop ::
  "(string \<times> servergroup list) list \<Rightarrow> (string \<times> string list) list
     \<Rightarrow> error + (string \<times> string list) list" where
  "by_region_loop [] by_region = Inr by_region"
| "by_region_loop ((key, run) # rest) by_region =
     (case run of
        [] \<Rightarrow> Inl IndexError
      | x # _ \<Rightarrow> by_region_loop rest (dict_set key (snd (snd x)) by_region))"

definition regroup :: "servergroup list \<Rightarrow> error + (string \<times> string list) list" where
  "regroup groups =
     (let sortedgroups = sort_key (\<lambda>x. fst x) groups in
      by_region_loop (groupby (\<lambda>x. fst (snd x)) sortedgroups) [])"

definition instances_by_region_compute ::
  "backend \<Rightarrow> App \<Rightarrow> string list
     \<Rightarrow> (error + (string \<times> string list) list) \<times> App \<times> string list" where
  "instances_by_region_compute B self log =
     (case servergroups B self log of
        (Inl e, self1, log1) \<Rightarrow> (Inl e, self1, log1)
      | (Inr groups, self1, log1) \<Rightarrow>
          (case regroup groups of
             Inl e \<Rightarrow> (Inl e, self1, log1)
           | Inr by_region \<Rightarrow>
               (Inr by_region, self1\<lparr>instances_by_region_slot := Some by_region\<rparr>, log1)))"

definition instances_by_region ::
  "backend \<Rightarrow> App \<Rightarrow> string list
     \<Rightarrow> (error + (string \<times> string list) list) \<times> App \<times> string list" where
  "instances_by_region B self log =
     (case instances_by_region_slot self of
        None \<Rightarrow> instances_by_region_compute B self log
      | Some v \<Rightarrow> (Inr v, self, log))"

text \<open>
  The URL that \<^verbatim>\<open>clusterdetails\<close> requests for one cluster name.
\<close>

definition detail_url :: "App \<Rightarrow> string \<Rightarrow> string" where
  "detail_url self c = CLUSTERDETAILS_URL (App.name self) (Account.name (account self)) c"

subsection \<open>The grouping as the specification words it\<close>

text \<open>
  The fourth stage read literally from the specification: the runs of the sequence sorted
  by region are visited in order, a group name gets the instance list of its first run,
  and a later run of a name that already has an entry contributes nothing.
\<close>

fun spec_first_run_loop ::
  "(string \<times> servergroup list) list \<Rightarrow> (string \<times> string list) list
     \<Rightarrow> (string \<times> string list) list" where
  "spec_first_run_loop [] by_region = by_region"
| "spec_first_run_loop ((key, run) # rest) by_region =
     spec_first_run_loop rest
       (case (map_of by_region key, run) of
          (None, x # _) \<Rightarrow> by_region @ [(key, snd (snd x))]
        | _ \<Rightarrow> by_region)"

definition spec_regroup :: "servergroup list \<Rightarrow> (string \<times> string list) list" where
  "spec_regroup groups =
     spec_first_run_loop (groupby (\<lambda>x. fst (snd x)) (sort_key (\<lambda>x. fst x) groups)) []"

subsection \<open>Callers\<close>

text \<open>
  A caller that reads the four properties one after the other, each read returning or
  raising before the next one starts: what the direct read of
  \<^verbatim>\<open>instances_by_region\<close> is compared with.
\<close>

definition in_order ::
  "backend \<Rightarrow> App \<Rightarrow> string list
     \<Rightarrow> (error + (string \<times> string list) list) \<times> App \<times> string list" where
  "in_order B self log =
     (case clusternames B self log of
        (Inl e, self1, log1) \<Rightarrow> (Inl e, self1, log1)
      | (Inr _, self1, log1) \<Rightarrow>
          (case clusterdetails B self1 log1 of
             (Inl e, self2, log2) \<Rightarrow> (Inl e, self2, log2)
           | (Inr _, self2, log2) \<Rightarrow>
               (case servergroups B self2 log2 of
                  (Inl e, self3, log3) \<Rightarrow> (Inl e, self3, log3)
                | (Inr _, self3, log3) \<Rightarrow> instances_by_region B self3 log3)))"

text \<open>
  A caller that reads any property and goes on whether the read returned or raised; only
  the object and the request log afterwards matter. A list of such reads stands for
  whatever happens between two reads of the same property.
\<close>

datatype property = Clusternames | Clusterdetails | Servergroups | Instances_by_region

fun access :: "backend \<Rightarrow> property \<Rightarrow> App \<times> string list \<Rightarrow> App \<times> string list" where
  "access B Clusternames (self, log) = snd (clusternames B self log)"
| "access B Clusterdetails (self, log) = snd (clusterdetails B self log)"
| "access B Servergroups (self, log) = snd (servergroups B self log)"
| "access B Instances_by_region (self, log) = snd (instances_by_region B self log)"

text \<open>
  What a read may do to an attribute: leave it, or set it when it was \<open>None\<close>.
  \<open>grows self self'\<close> says so of all four attributes, the name and the account being
  the same.
\<close>

definition slot_kept :: "'a option \<Rightarrow> 'a option \<Rightarrow> bool" where
  "slot_kept before after = (case before of None \<Rightarrow> True | Some v \<Rightarrow> after = Some v)"

definition grows :: "App \<Rightarrow> App \<Rightarrow> bool" where
  "grows self self' =
     (App.name self' = App.name self \<and> account self' = account self \<and>
      slot_kept (clusternames_slot self) (clusternames_slot self') \<and>
      slot_kept (clusterdetails_slot self) (clusterdetails_slot self') \<and>
      slot_kept (servergroups_slot self) (servergroups_slot self') \<and>
      slot_kept (instances_by_region_slot self) (instances_by_region_slot self'))"

subsection \<open>Example inventory services\<close>

text \<open>
  A service that gives the same listing and the same answer to every detail request, and
  the scenario of the specification: application \<open>checkout\<close> in account \<open>test\<close>,
  one cluster with one server group of two instances. The variants time out on details,
  list another account only, omit the region of the server group, or list two clusters.
\<close>

definition constant_backend ::
  "(string \<times> string list) list \<Rightarrow> error + ClusterDetail \<Rightarrow> backend" where
  "constant_backend listing answer =
     \<lparr>get_clusters = (\<lambda>log url. Inr listing), get_clusterdetails = (\<lambda>log url. answer)\<rparr>"

definition checkout_detail :: ClusterDetail where
  "checkout_detail =
     \<lparr>key_serverGroups = Some
        [\<lparr>key_name = Some ''checkout-test-v001'', key_region = Some ''us-east-1'',
          key_instances = Some [\<lparr>key_instanceId = Some ''i-aaa''\<rparr>,
                                \<lparr>key_instanceId = Some ''i-bbb''\<rparr>]\<rparr>]\<rparr>"

definition checkout :: App where
  "checkout = App_init ''checkout'' \<lparr>Account.name = ''test''\<rparr>"

definition checkout_backend :: backend where
  "checkout_backend = constant_backend [(''test'', [''checkout-test-v001''])] (Inr checkout_detail)"

definition timeout_backend :: backend where
  "timeout_backend =
     constant_backend [(''test'', [''checkout-test-v001''])] (Inl (RequestError ''timeout''))"

definition other_account_backend :: backend where
  "other_account_backend =
     constant_backend [(''prod'', [''checkout-prod-v001''])] (Inr checkout_detail)"

definition no_region_backend :: backend where
  "no_region_backend =
     constant_backend [(''test'', [''checkout-test-v001''])]
       (Inr \<lparr>key_serverGroups = Some
          [\<lparr>key_name = Some ''checkout-test-v001'', key_region = None,
            key_instances = Some [\<lparr>key_instanceId = Some ''i-aaa''\<rparr>]\<rparr>]\<rparr>)"

definition two_cluster_backend :: backend where
  "two_cluster_backend =
     constant_backend [(''test'', [''checkout-test-v001'', ''checkout-test-v002''])]
       (Inr checkout_detail)"

section \<open>Account resolution\<close>

text \<open>
  C4. For the names \<open>prod\<close> and \<open>test\<close> the property \<open>number\<close> returns the mapped
  identifier, \<open>1234567890\<close> and \<open>0123456789\<close>; for every other name it fails with the
  assertion's error, not with the \<open>KeyError\<close> of the table lookup, which is therefore
  never reached. \<open>number\<close> takes the account alone: it reads and writes no request log.
\<close>

theorem number_resolution:
  "number self =
     (if Account.name self = ''prod'' then Inr ''1234567890''
      else if Account.name self = ''test'' then Inr ''0123456789''
      else Inl AssertionError)"
  by (simp add: number_def getitem_def accountnumber_def Let_def)

text \<open>
  C10. Constructing an account with a name other than \<open>prod\<close> and \<open>test\<close> fails in
  the constructor with the error of \<open>number\<close>, and every account the constructor returns
  has one of the two recognised names.
\<close>

theorem Account_init_unrecognised:
  "(nm \<noteq> ''prod'' \<and> nm \<noteq> ''test'' \<longrightarrow> Account_init nm = Inl AssertionError) \<and>
   (Account_init nm = Inr a \<longrightarrow> Account.name a = nm \<and> (nm = ''prod'' \<or> nm = ''test''))"
  by (auto simp: Account_init_def number_def getitem_def accountnumber_def Let_def
      split: sum.splits if_splits)

theorem Account_init_unrecognised_witness:
  "(''dev'' \<noteq> ''prod'' \<and> ''dev'' \<noteq> ''test'') \<and> Account_init ''dev'' = Inl AssertionError \<and>
   Account_init ''test'' = Inr \<lparr>Account.name = ''test''\<rparr> \<and>
   Account.name \<lparr>Account.name = ''test''\<rparr> = ''test''"
proof -
  have r: "Account_init ''test'' = Inr \<lparr>Account.name = ''test''\<rparr>"
    by (simp add: Account_init_def number_def getitem_def accountnumber_def Let_def)
  show ?thesis
    using Account_init_unrecognised [of "''dev''"]
      Account_init_unrecognised [of "''test''" "\<lparr>Account.name = ''test''\<rparr>"] r
    by simp
qed

section \<open>Utilities\<close>

text \<open>
  C8. For every list of lists (and whatever is passed for the unused first parameter),
  \<open>flatten\<close> returns the inner elements concatenated in outer-then-inner order, neither
  deduplicated nor sorted: its length is the sum of the inner lengths, the empty outer
  list gives the empty list, and the three examples of the specification evaluate as
  stated. The function has no failing branch.
\<close>

theorem flatten_concat:
  "flatten self deeplist = concat deeplist \<and>
   length (flatten self deeplist) = sum_list (map length deeplist) \<and>
   flatten self ([] :: int list list) = [] \<and>
   flatten self [[1, 2], [], [3 :: int]] = [1, 2, 3] \<and>
   flatten self [[1, 1], [2 :: int]] = [1, 1, 2]"
  by (simp add: flatten_def length_concat)

text \<open>
  C9. Consuming a generator that \<open>gen_nums\<close> has just created yields exactly
  \<open>[1, 3, 5, 7, 9]\<close>. The first value is 1 and the generator, once exhausted, stays
  exhausted; a new call of \<open>gen_nums\<close> creates a generator in the same initial state,
  whatever was consumed from another one before.
\<close>

theorem gen_nums_sequence:
  "consume (gen_nums ()) = [1, 3, 5, 7, 9] \<and>
   gen_next (gen_nums ()) = Some (1, 3) \<and>
   gen_next 11 = None"
  by (simp add: gen_nums_def consume.simps gen_next_def)

section \<open>The grouping stage\<close>

lemma groupby_nonempty: "[] \<notin> snd ` set (groupby key xs)"
  by (induction key xs rule: groupby.induct) auto

lemma groupby_keys: "fst ` set (groupby key xs) = key ` set xs"
proof (induction key xs rule: groupby.induct)
  case (1 key)
  then show ?case by simp
next
  case (2 key x xs)
  have split: "set xs = set (takeWhile (\<lambda>y. key y = key x) xs) \<union> set (dropWhile (\<lambda>y. key y = key x) xs)"
    by (metis set_append takeWhile_dropWhile_id)
  have tw: "key ` set (takeWhile (\<lambda>y. key y = key x) xs) \<subseteq> {key x}"
    by (auto dest: set_takeWhileD)
  have "key ` set xs = key ` set (takeWhile (\<lambda>y. key y = key x) xs) \<union> key ` set (dropWhile (\<lambda>y. key y = key x) xs)"
    using split by (metis image_Un)
  with tw 2 show ?case by auto
qed

lemma concat_groupby: "concat (map snd (groupby key xs)) = xs"
  by (induction key xs rule: groupby.induct) simp_all

lemma by_region_loop_fold:
  "[] \<notin> snd ` set runs \<Longrightarrow>
   by_region_loop runs d = Inr (fold (\<lambda>r. dict_set (fst r) (snd (snd (hd (snd r))))) runs d)"
proof (induction runs arbitrary: d)
  case Nil
  then show ?case by simp
next
  case (Cons r runs)
  obtain k run where r: "r = (k, run)" by (cases r)
  with Cons.prems obtain x rest where run: "run = x # rest" by (cases run) auto
  from Cons.prems have "[] \<notin> snd ` set runs" by auto
  with Cons.IH show ?case by (simp add: r run)
qed

lemma map_of_fold_dict_set:
  "map_of (fold (\<lambda>r. dict_set (fst r) (f r)) runs d) = map_of d ++ map_of (rev (map (\<lambda>r. (fst r, f r)) runs))"
proof (induction runs arbitrary: d)
  case Nil
  then show ?case by simp
next
  case (Cons r runs)
  have "map_of (fold (\<lambda>r. dict_set (fst r) (f r)) (r # runs) d)
          = map_of (dict_set (fst r) (f r) d) ++ map_of (rev (map (\<lambda>r. (fst r, f r)) runs))"
    using Cons.IH by simp
  also have "\<dots> = map_of d ++ map_of (rev (map (\<lambda>r. (fst r, f r)) (r # runs)))"
    by (auto simp: dict_set_def update_conv' fun_eq_iff map_add_def split: option.splits)
  finally show ?case .
qed

lemma regroup_fold:
  "regroup groups =
     Inr (fold (\<lambda>r. dict_set (fst r) (snd (snd (hd (snd r)))))
            (groupby (\<lambda>x. fst (snd x)) (sort_key fst groups)) [])"
  by (simp add: regroup_def by_region_loop_fold groupby_nonempty)

lemma regroup_not_Inl: "regroup groups \<noteq> Inl e"
  by (simp add: regroup_fold)

section \<open>The four properties, case by case\<close>

lemma slot_kept_refl [simp]: "slot_kept s s"
  by (simp add: slot_kept_def split: option.splits)

lemma slot_kept_None [simp]: "slot_kept None s"
  by (simp add: slot_kept_def)

lemma slot_kept_Some [simp]: "slot_kept (Some v) s \<longleftrightarrow> s = Some v"
  by (simp add: slot_kept_def)

lemma slot_kept_trans: "slot_kept a b \<Longrightarrow> slot_kept b c \<Longrightarrow> slot_kept a c"
  by (auto simp: slot_kept_def split: option.splits)

lemma grows_refl [simp]: "grows self self"
  by (simp add: grows_def)

lemma grows_trans: "grows a b \<Longrightarrow> grows b c \<Longrightarrow> grows a c"
  by (auto simp: grows_def intro: slot_kept_trans)

lemma clusternames_cases:
  assumes "clusternames B self log = (r, self', log')"
  obtains (cached) v where "clusternames_slot self = Some v" "r = Inr v" "self' = self" "log' = log"
  | (failed) e where "clusternames_slot self = None" "r = Inl e" "self' = self"
      "log' = log @ [CLUSTERS_URL (App.name self)]"
  | (computed) v where "clusternames_slot self = None" "r = Inr v"
      "self' = self\<lparr>clusternames_slot := Some v\<rparr>"
      "log' = log @ [CLUSTERS_URL (App.name self)]"
proof (cases "clusternames_slot self")
  case (Some v)
  with assms show thesis by (intro cached [of v]) (auto simp: clusternames_def)
next
  case None
  show thesis
  proof (cases "get_clusters B log (CLUSTERS_URL (App.name self))")
    case (Inl e)
    with None assms show thesis
      by (intro failed [of e]) (auto simp: clusternames_def clusternames_compute_def Let_def)
  next
    case (Inr body)
    show thesis
    proof (cases "getitem body (Account.name (account self))")
      case (Inl e)
      with None Inr assms show thesis
        by (intro failed [of e]) (auto simp: clusternames_def clusternames_compute_def Let_def)
    next
      case (Inr v)
      with None \<open>get_clusters B log (CLUSTERS_URL (App.name self)) = Inr body\<close> assms
      show thesis
        by (intro computed [of v]) (auto simp: clusternames_def clusternames_compute_def Let_def)
    qed
  qed
qed

lemma clusterdetails_cases:
  assumes "clusterdetails B self log = (r, self', log')"
  obtains (cached) d where "clusterdetails_slot self = Some d" "r = Inr d" "self' = self" "log' = log"
  | (names_failed) e where "clusterdetails_slot self = None"
      "clusternames B self log = (Inl e, self', log')" "r = Inl e"
  | (fetch_failed) names log1 e where "clusterdetails_slot self = None"
      "clusternames B self log = (Inr names, self', log1)"
      "fetch_details B self' names [] log1 = (Inl e, log')" "r = Inl e"
  | (computed) names self1 log1 d where "clusterdetails_slot self = None"
      "clusternames B self log = (Inr names, self1, log1)"
      "fetch_details B self1 names [] log1 = (Inr d, log')" "r = Inr d"
      "self' = self1\<lparr>clusterdetails_slot := Some d\<rparr>"
  using assms
  by (auto simp: clusterdetails_def clusterdetails_compute_def
      split: option.splits sum.splits prod.splits)

lemma servergroups_cases:
  assumes "servergroups B self log = (r, self', log')"
  obtains (cached) g where "servergroups_slot self = Some g" "r = Inr g" "self' = self" "log' = log"
  | (details_failed) e where "servergroups_slot self = None"
      "clusterdetails B self log = (Inl e, self', log')" "r = Inl e"
  | (extract_failed) details e where "servergroups_slot self = None"
      "clusterdetails B self log = (Inr details, self', log')"
      "extract_clusters details (map fst details) [] = Inl e" "r = Inl e"
  | (computed) details self1 g where "servergroups_slot self = None"
      "clusterdetails B self log = (Inr details, self1, log')"
      "extract_clusters details (map fst details) [] = Inr g" "r = Inr g"
      "self' = self1\<lparr>servergroups_slot := Some g\<rparr>"
  using assms
  by (auto simp: servergroups_def servergroups_compute_def
      split: option.splits sum.splits prod.splits)

lemma instances_by_region_cases:
  assumes "instances_by_region B self log = (r, self', log')"
  obtains (cached) m where "instances_by_region_slot self = Some m" "r = Inr m" "self' = self" "log' = log"
  | (groups_failed) e where "instances_by_region_slot self = None"
      "servergroups B self log = (Inl e, self', log')" "r = Inl e"
  | (regroup_failed) groups e where "instances_by_region_slot self = None"
      "servergroups B self log = (Inr groups, self', log')"
      "regroup groups = Inl e" "r = Inl e"
  | (computed) groups self1 m where "instances_by_region_slot self = None"
      "servergroups B self log = (Inr groups, self1, log')"
      "regroup groups = Inr m" "r = Inr m"
      "self' = self1\<lparr>instances_by_region_slot := Some m\<rparr>"
  using assms
  by (auto simp: instances_by_region_def instances_by_region_compute_def
      split: option.splits sum.splits prod.splits)

lemma clusternames_frame:
  assumes "clusternames B self log = (r, self', log')"
  shows "grows self self' \<and> clusterdetails_slot self' = clusterdetails_slot self
     \<and> servergroups_slot self' = servergroups_slot self
     \<and> instances_by_region_slot self' = instances_by_region_slot self"
  using assms by (cases rule: clusternames_cases) (auto simp: grows_def)

lemma clusterdetails_frame:
  assumes "clusterdetails B self log = (r, self', log')"
  shows "grows self self' \<and> servergroups_slot self' = servergroups_slot self
     \<and> instances_by_region_slot self' = instances_by_region_slot self"
  using assms
proof (cases rule: clusterdetails_cases)
  case (cached d)
  then show ?thesis by simp
next
  case (names_failed e)
  from clusternames_frame [OF names_failed(2)] show ?thesis by simp
next
  case (fetch_failed names log1 e)
  from clusternames_frame [OF fetch_failed(2)] show ?thesis by simp
next
  case (computed names self1 log1 d)
  from clusternames_frame [OF computed(2)] computed(1,5) show ?thesis
    by (simp add: grows_def)
qed

lemma servergroups_frame:
  assumes "servergroups B self log = (r, self', log')"
  shows "grows self self' \<and> instances_by_region_slot self' = instances_by_region_slot self"
  using assms
proof (cases rule: servergroups_cases)
  case (cached g)
  then show ?thesis by simp
next
  case (details_failed e)
  from clusterdetails_frame [OF details_failed(2)] show ?thesis by simp
next
  case (extract_failed details e)
  from clusterdetails_frame [OF extract_failed(2)] show ?thesis by simp
next
  case (computed details self1 g)
  from clusterdetails_frame [OF computed(2)] computed(1,5) show ?thesis
    by (simp add: grows_def)
qed

lemma instances_by_region_frame:
  assumes "instances_by_region B self log = (r, self', log')"
  shows "grows self self'"
  using assms
proof (cases rule: instances_by_region_cases)
  case (cached m)
  then show ?thesis by simp
next
  case (groups_failed e)
  from servergroups_frame [OF groups_failed(2)] show ?thesis by simp
next
  case (regroup_failed groups e)
  from servergroups_frame [OF regroup_failed(2)] show ?thesis by simp
next
  case (computed groups self1 m)
  from servergroups_frame [OF computed(2)] computed(1,5) show ?thesis
    by (simp add: grows_def)
qed

lemma clusternames_cached:
  "clusternames_slot self = Some v \<Longrightarrow> clusternames B self log = (Inr v, self, log)"
  by (simp add: clusternames_def)

lemma clusterdetails_cached:
  "clusterdetails_slot self = Some v \<Longrightarrow> clusterdetails B self log = (Inr v, self, log)"
  by (simp add: clusterdetails_def)

lemma servergroups_cached:
  "servergroups_slot self = Some v \<Longrightarrow> servergroups B self log = (Inr v, self, log)"
  by (simp add: servergroups_def)

lemma instances_by_region_cached:
  "instances_by_region_slot self = Some v \<Longrightarrow> instances_by_region B self log = (Inr v, self, log)"
  by (simp add: instances_by_region_def)

lemma clusternames_sets_slot:
  "clusternames B self log = (Inr v, self', log') \<Longrightarrow> clusternames_slot self' = Some v"
  by (erule clusternames_cases) auto

lemma clusterdetails_sets_slot:
  "clusterdetails B self log = (Inr v, self', log') \<Longrightarrow> clusterdetails_slot self' = Some v"
  by (erule clusterdetails_cases) auto

lemma servergroups_sets_slot:
  "servergroups B self log = (Inr v, self', log') \<Longrightarrow> servergroups_slot self' = Some v"
  by (erule servergroups_cases) auto

lemma instances_by_region_sets_slot:
  "instances_by_region B self log = (Inr v, self', log') \<Longrightarrow> instances_by_region_slot self' = Some v"
  by (erule instances_by_region_cases) auto

lemma access_grows:
  assumes "access B p (self, log) = (self', log')"
  shows "grows self self'"
proof (cases p)
  case Clusternames
  with assms have "clusternames B self log = (fst (clusternames B self log), self', log')"
    by (metis access.simps(1) prod.collapse)
  from clusternames_frame [OF this] show ?thesis by simp
next
  case Clusterdetails
  with assms have "clusterdetails B self log = (fst (clusterdetails B self log), self', log')"
    by (metis access.simps(2) prod.collapse)
  from clusterdetails_frame [OF this] show ?thesis by simp
next
  case Servergroups
  with assms have "servergroups B self log = (fst (servergroups B self log), self', log')"
    by (metis access.simps(3) prod.collapse)
  from servergroups_frame [OF this] show ?thesis by simp
next
  case Instances_by_region
  with assms have
    "instances_by_region B self log = (fst (instances_by_region B self log), self', log')"
    by (metis access.simps(4) prod.collapse)
  from instances_by_region_frame [OF this] show ?thesis by simp
qed

lemma accesses_grow:
  "fold (access B) ps (self, log) = (self', log') \<Longrightarrow> grows self self'"
proof (induction ps arbitrary: self log)
  case Nil
  then show ?case by simp
next
  case (Cons p ps)
  obtain s1 l1 where a: "access B p (self, log) = (s1, l1)" by (cases "access B p (self, log)")
  with Cons.prems have "fold (access B) ps (s1, l1) = (self', log')" by simp
  from Cons.IH [OF this] access_grows [OF a] show ?case by (rule grows_trans [rotated])
qed

section \<open>The loop over the cluster names\<close>

lemma fetch_details_step:
  assumes "fetch_details B self (c # rest) d log = (Inr d', log')"
  obtains body where "get_clusterdetails B log (detail_url self c) = Inr body"
    and "fetch_details B self rest (dict_set c body d) (log @ [detail_url self c]) = (Inr d', log')"
  using assms by (auto simp: Let_def detail_url_def split: sum.splits)

lemma fetch_details_log:
  "fetch_details B self names d log = (Inr d', log') \<Longrightarrow> log' = log @ map (detail_url self) names"
proof (induction names arbitrary: d log)
  case Nil
  then show ?case by simp
next
  case (Cons c rest)
  from Cons.prems obtain body where
    r: "fetch_details B self rest (dict_set c body d) (log @ [detail_url self c]) = (Inr d', log')"
    by (rule fetch_details_step)
  from Cons.IH [OF r] show ?case by simp
qed

lemma fetch_details_keys:
  "fetch_details B self names d log = (Inr d', log') \<Longrightarrow> fst ` set d' = fst ` set d \<union> set names"
proof (induction names arbitrary: d log)
  case Nil
  then show ?case by simp
next
  case (Cons c rest)
  from Cons.prems obtain body where
    r: "fetch_details B self rest (dict_set c body d) (log @ [detail_url self c]) = (Inr d', log')"
    by (rule fetch_details_step)
  from Cons.IH [OF r] show ?case by (auto simp: dict_set_def dom_update)
qed

lemma fetch_details_other:
  "fetch_details B self names d log = (Inr d', log') \<Longrightarrow> k \<notin> set names \<Longrightarrow> map_of d' k = map_of d k"
proof (induction names arbitrary: d log)
  case Nil
  then show ?case by simp
next
  case (Cons c rest)
  from Cons.prems(1) obtain body where
    r: "fetch_details B self rest (dict_set c body d) (log @ [detail_url self c]) = (Inr d', log')"
    by (rule fetch_details_step)
  from Cons.prems(2) have "k \<notin> set rest" "k \<noteq> c" by auto
  with Cons.IH [OF r] show ?case by (simp add: dict_set_def update_conv')
qed

lemma fetch_details_bodies:
  "fetch_details B self names d log = (Inr d', log') \<Longrightarrow> i < length names \<Longrightarrow>
   names ! i \<notin> set (drop (Suc i) names) \<Longrightarrow>
   \<exists>body. get_clusterdetails B (log @ map (detail_url self) (take i names))
             (detail_url self (names ! i)) = Inr body
          \<and> map_of d' (names ! i) = Some body"
proof (induction names arbitrary: d log i)
  case Nil
  then show ?case by simp
next
  case (Cons c rest)
  from Cons.prems(1) obtain body where
    b: "get_clusterdetails B log (detail_url self c) = Inr body" and
    r: "fetch_details B self rest (dict_set c body d) (log @ [detail_url self c]) = (Inr d', log')"
    by (rule fetch_details_step)
  show ?case
  proof (cases i)
    case 0
    with Cons.prems(3) have "c \<notin> set rest" by simp
    from fetch_details_other [OF r this]
    have "map_of d' c = Some body" by (simp add: dict_set_def update_conv')
    with b 0 show ?thesis by simp
  next
    case (Suc j)
    with Cons.prems have j: "j < length rest" "rest ! j \<notin> set (drop (Suc j) rest)" by auto
    from Cons.IH [OF r j] Suc show ?thesis by simp
  qed
qed

lemma fetch_details_Inl:
  "fetch_details B self names d log = (Inl e, log') \<Longrightarrow>
   \<exists>i<length names.
      get_clusterdetails B (log @ map (detail_url self) (take i names))
        (detail_url self (names ! i)) = Inl e
      \<and> log' = log @ map (detail_url self) (take (Suc i) names)"
proof (induction names arbitrary: d log)
  case Nil
  then show ?case by simp
next
  case (Cons c rest)
  show ?case
  proof (cases "get_clusterdetails B log (detail_url self c)")
    case (Inl e')
    with Cons.prems have "e' = e" "log' = log @ [detail_url self c]"
      by (auto simp: Let_def detail_url_def)
    with Inl have "get_clusterdetails B (log @ map (detail_url self) (take 0 (c # rest)))
        (detail_url self ((c # rest) ! 0)) = Inl e
      \<and> log' = log @ map (detail_url self) (take (Suc 0) (c # rest))" by simp
    then show ?thesis by blast
  next
    case (Inr body)
    with Cons.prems have
      "fetch_details B self rest (dict_set c body d) (log @ [detail_url self c]) = (Inl e, log')"
      by (auto simp: Let_def detail_url_def)
    from Cons.IH [OF this] obtain i where i: "i < length rest"
      "get_clusterdetails B ((log @ [detail_url self c]) @ map (detail_url self) (take i rest))
         (detail_url self (rest ! i)) = Inl e"
      "log' = (log @ [detail_url self c]) @ map (detail_url self) (take (Suc i) rest)"
      by blast
    then have "Suc i < length (c # rest) \<and>
      get_clusterdetails B (log @ map (detail_url self) (take (Suc i) (c # rest)))
        (detail_url self ((c # rest) ! Suc i)) = Inl e
      \<and> log' = log @ map (detail_url self) (take (Suc (Suc i)) (c # rest))" by simp
    then show ?thesis by blast
  qed
qed

section \<open>Reading the properties in order\<close>

lemma clusterdetails_after_clusternames:
  assumes "clusterdetails_slot self = None"
    and "clusternames B self log = (Inr v, self1, log1)"
  shows "clusterdetails B self1 log1 = clusterdetails B self log"
proof -
  from clusternames_frame [OF assms(2)] assms(1) have n: "clusterdetails_slot self1 = None"
    by simp
  from clusternames_sets_slot [OF assms(2)]
  have c: "clusternames B self1 log1 = (Inr v, self1, log1)" by (rule clusternames_cached)
  show ?thesis
    by (simp add: clusterdetails_def clusterdetails_compute_def n assms c)
qed

lemma clusterdetails_after_clusternames_failed:
  assumes "clusterdetails_slot self = None"
    and "clusternames B self log = (Inl e, self1, log1)"
  shows "clusterdetails B self log = (Inl e, self1, log1)"
  by (simp add: clusterdetails_def clusterdetails_compute_def assms)

lemma servergroups_after_clusterdetails:
  assumes "servergroups_slot self = None"
    and "clusterdetails B self log = (Inr v, self1, log1)"
  shows "servergroups B self1 log1 = servergroups B self log"
proof -
  from clusterdetails_frame [OF assms(2)] assms(1) have n: "servergroups_slot self1 = None"
    by simp
  from clusterdetails_sets_slot [OF assms(2)]
  have c: "clusterdetails B self1 log1 = (Inr v, self1, log1)" by (rule clusterdetails_cached)
  show ?thesis
    by (simp add: servergroups_def servergroups_compute_def n assms c)
qed

lemma servergroups_after_clusterdetails_failed:
  assumes "servergroups_slot self = None"
    and "clusterdetails B self log = (Inl e, self1, log1)"
  shows "servergroups B self log = (Inl e, self1, log1)"
  by (simp add: servergroups_def servergroups_compute_def assms)

lemma instances_by_region_after_servergroups:
  assumes "instances_by_region_slot self = None"
    and "servergroups B self log = (Inr v, self1, log1)"
  shows "instances_by_region B self1 log1 = instances_by_region B self log"
proof -
  from servergroups_frame [OF assms(2)] assms(1) have n: "instances_by_region_slot self1 = None"
    by simp
  from servergroups_sets_slot [OF assms(2)]
  have c: "servergroups B self1 log1 = (Inr v, self1, log1)" by (rule servergroups_cached)
  show ?thesis
    by (simp add: instances_by_region_def instances_by_region_compute_def n assms c)
qed

lemma instances_by_region_after_servergroups_failed:
  assumes "instances_by_region_slot self = None"
    and "servergroups B self log = (Inl e, self1, log1)"
  shows "instances_by_region B self log = (Inl e, self1, log1)"
  by (simp add: instances_by_region_def instances_by_region_compute_def assms)

lemma in_order_eq:
  assumes d: "clusterdetails_slot self = None"
    and s: "servergroups_slot self = None"
    and i: "instances_by_region_slot self = None"
  shows "in_order B self log = instances_by_region B self log"
proof -
  obtain r1 s1 l1 where c1: "clusternames B self log = (r1, s1, l1)"
    by (cases "clusternames B self log")
  from clusternames_frame [OF c1] d s i
  have n1: "clusterdetails_slot s1 = None" "servergroups_slot s1 = None"
    "instances_by_region_slot s1 = None" by simp_all
  show ?thesis
  proof (cases r1)
    case (Inl e)
    with c1 have f1: "clusternames B self log = (Inl e, s1, l1)" by simp
    from clusterdetails_after_clusternames_failed [OF d f1]
    have f2: "clusterdetails B self log = (Inl e, s1, l1)" .
    from servergroups_after_clusterdetails_failed [OF s f2]
    have f3: "servergroups B self log = (Inl e, s1, l1)" .
    from instances_by_region_after_servergroups_failed [OF i f3] f1
    show ?thesis by (simp add: in_order_def)
  next
    case (Inr v1)
    with c1 have k1: "clusternames B self log = (Inr v1, s1, l1)" by simp
    from clusterdetails_after_clusternames [OF d k1]
    have e2: "clusterdetails B s1 l1 = clusterdetails B self log" .
    obtain r2 s2 l2 where c2: "clusterdetails B self log = (r2, s2, l2)"
      by (cases "clusterdetails B self log")
    show ?thesis
    proof (cases r2)
      case (Inl e)
      with c2 have f2: "clusterdetails B self log = (Inl e, s2, l2)" by simp
      from servergroups_after_clusterdetails_failed [OF s f2]
      have f3: "servergroups B self log = (Inl e, s2, l2)" .
      from instances_by_region_after_servergroups_failed [OF i f3] k1 e2 f2
      show ?thesis by (simp add: in_order_def)
    next
      case (Inr v2)
      with c2 have k2: "clusterdetails B self log = (Inr v2, s2, l2)" by simp
      from clusterdetails_frame [OF k2] s i
      have n2: "servergroups_slot s2 = None" "instances_by_region_slot s2 = None" by simp_all
      from servergroups_after_clusterdetails [OF s k2]
      have e3: "servergroups B s2 l2 = servergroups B self log" .
      obtain r3 s3 l3 where c3: "servergroups B self log = (r3, s3, l3)"
        by (cases "servergroups B self log")
      show ?thesis
      proof (cases r3)
        case (Inl e)
        with c3 have f3: "servergroups B self log = (Inl e, s3, l3)" by simp
        from instances_by_region_after_servergroups_failed [OF i f3] k1 e2 k2 e3 f3
        show ?thesis by (simp add: in_order_def)
      next
        case (Inr v3)
        with c3 have k3: "servergroups B self log = (Inr v3, s3, l3)" by simp
        from instances_by_region_after_servergroups [OF i k3] k1 e2 k2 e3 k3
        show ?thesis by (simp add: in_order_def)
      qed
    qed
  qed
qed

lemma pipeline_success:
  assumes "instances_by_region B (App_init nm acct) log = (Inr v, self', log')"
  shows "\<exists>names details groups.
     self' = \<lparr>name = nm, account = acct, clusternames_slot = Some names,
              clusterdetails_slot = Some details, servergroups_slot = Some groups,
              instances_by_region_slot = Some v\<rparr> \<and>
     extract_clusters details (map fst details) [] = Inr groups \<and>
     regroup groups = Inr v \<and>
     log' = log @ CLUSTERS_URL nm # map (CLUSTERDETAILS_URL nm (Account.name acct)) names"
  using assms
proof (cases rule: instances_by_region_cases)
  case (cached m)
  then show ?thesis by (simp add: App_init_def)
next
  case (computed groups s3 m)
  from computed(2) show ?thesis
  proof (cases rule: servergroups_cases)
    case (cached g)
    then show ?thesis by (simp add: App_init_def)
  next
    case sg: (computed details s2 g)
    from sg(2) show ?thesis
    proof (cases rule: clusterdetails_cases)
      case (cached d)
      then show ?thesis by (simp add: App_init_def)
    next
      case cd: (computed names s1 log1 d)
      from cd(2) have s1: "s1 = (App_init nm acct)\<lparr>clusternames_slot := Some names\<rparr>"
        and l1: "log1 = log @ [CLUSTERS_URL nm]"
        by (cases rule: clusternames_cases; simp add: App_init_def)+
      have u: "detail_url s1 = CLUSTERDETAILS_URL nm (Account.name acct)"
        by (auto simp: s1 detail_url_def App_init_def)
      from fetch_details_log [OF cd(3)] u l1
      have "log' = log @ CLUSTERS_URL nm # map (CLUSTERDETAILS_URL nm (Account.name acct)) names"
        by simp
      moreover have "self' = \<lparr>name = nm, account = acct, clusternames_slot = Some names,
              clusterdetails_slot = Some details, servergroups_slot = Some groups,
              instances_by_region_slot = Some v\<rparr>"
        using computed(4,5) sg(4,5) cd(4,5) s1 by (simp add: App_init_def)
      moreover have "extract_clusters details (map fst details) [] = Inr groups"
        using sg(3,4) by simp
      moreover have "regroup groups = Inr v" using computed(3,4) by simp
      ultimately show ?thesis by blast
    qed auto
  qed auto
qed auto

section \<open>The examples evaluated\<close>

lemmas example_defs =
  checkout_backend_def timeout_backend_def other_account_backend_def no_region_backend_def
  constant_backend_def checkout_def checkout_detail_def App_init_def

lemmas property_defs =
  clusternames_def clusternames_compute_def clusterdetails_def clusterdetails_compute_def
  servergroups_def servergroups_compute_def instances_by_region_def
  instances_by_region_compute_def getitem_def subscript_def extract_element_def
  regroup_def dict_set_def Let_def

lemma checkout_clusternames:
  "clusternames checkout_backend checkout [] =
     (Inr [''checkout-test-v001''],
      checkout\<lparr>clusternames_slot := Some [''checkout-test-v001'']\<rparr>,
      [CLUSTERS_URL ''checkout''])"
  by (simp add: example_defs property_defs)

lemma checkout_instances_by_region:
  "instances_by_region checkout_backend checkout [] =
     (Inr [(''checkout-test-v001'', [''i-aaa'', ''i-bbb''])],
      checkout\<lparr>clusternames_slot := Some [''checkout-test-v001''],
        clusterdetails_slot := Some [(''checkout-test-v001'', checkout_detail)],
        servergroups_slot := Some [(''us-east-1'', ''checkout-test-v001'', [''i-aaa'', ''i-bbb''])],
        instances_by_region_slot := Some [(''checkout-test-v001'', [''i-aaa'', ''i-bbb''])]\<rparr>,
      [CLUSTERS_URL ''checkout'', CLUSTERDETAILS_URL ''checkout'' ''test'' ''checkout-test-v001''])"
  by (simp add: example_defs property_defs)

lemma checkout_later_instances:
  "fold (access checkout_backend) [Instances_by_region, Servergroups]
     (checkout\<lparr>clusternames_slot := Some [''checkout-test-v001'']\<rparr>, [CLUSTERS_URL ''checkout''])
   = (checkout\<lparr>clusternames_slot := Some [''checkout-test-v001''],
        clusterdetails_slot := Some [(''checkout-test-v001'', checkout_detail)],
        servergroups_slot := Some [(''us-east-1'', ''checkout-test-v001'', [''i-aaa'', ''i-bbb''])],
        instances_by_region_slot := Some [(''checkout-test-v001'', [''i-aaa'', ''i-bbb''])]\<rparr>,
      [CLUSTERS_URL ''checkout'', CLUSTERDETAILS_URL ''checkout'' ''test'' ''checkout-test-v001''])"
  by (simp add: example_defs property_defs)

lemma checkout_later_all:
  "fold (access checkout_backend) [Clusternames, Clusterdetails, Servergroups]
     (checkout\<lparr>clusternames_slot := Some [''checkout-test-v001''],
        clusterdetails_slot := Some [(''checkout-test-v001'', checkout_detail)],
        servergroups_slot := Some [(''us-east-1'', ''checkout-test-v001'', [''i-aaa'', ''i-bbb''])],
        instances_by_region_slot := Some [(''checkout-test-v001'', [''i-aaa'', ''i-bbb''])]\<rparr>,
      [CLUSTERS_URL ''checkout'', CLUSTERDETAILS_URL ''checkout'' ''test'' ''checkout-test-v001''])
   = (checkout\<lparr>clusternames_slot := Some [''checkout-test-v001''],
        clusterdetails_slot := Some [(''checkout-test-v001'', checkout_detail)],
        servergroups_slot := Some [(''us-east-1'', ''checkout-test-v001'', [''i-aaa'', ''i-bbb''])],
        instances_by_region_slot := Some [(''checkout-test-v001'', [''i-aaa'', ''i-bbb''])]\<rparr>,
      [CLUSTERS_URL ''checkout'', CLUSTERDETAILS_URL ''checkout'' ''test'' ''checkout-test-v001''])"
  by (simp add: example_defs property_defs)

lemma other_account_clusternames:
  "clusternames other_account_backend checkout [] =
     (Inl (KeyError ''test''), checkout, [CLUSTERS_URL ''checkout''])"
  by (simp add: example_defs property_defs)

lemma timeout_clusterdetails:
  "clusterdetails timeout_backend checkout [] =
     (Inl (RequestError ''timeout''),
      checkout\<lparr>clusternames_slot := Some [''checkout-test-v001'']\<rparr>,
      [CLUSTERS_URL ''checkout'', CLUSTERDETAILS_URL ''checkout'' ''test'' ''checkout-test-v001''])"
  by (simp add: example_defs property_defs)

lemma no_region_servergroups:
  "servergroups no_region_backend checkout [] =
     (Inl (KeyError ''region''),
      checkout\<lparr>clusternames_slot := Some [''checkout-test-v001''],
        clusterdetails_slot := Some [(''checkout-test-v001'',
          \<lparr>key_serverGroups = Some
            [\<lparr>key_name = Some ''checkout-test-v001'', key_region = None,
              key_instances = Some [\<lparr>key_instanceId = Some ''i-aaa''\<rparr>]\<rparr>]\<rparr>)]\<rparr>,
      [CLUSTERS_URL ''checkout'', CLUSTERDETAILS_URL ''checkout'' ''test'' ''checkout-test-v001''])"
  by (simp add: example_defs property_defs)

lemma no_region_instances_by_region:
  "instances_by_region no_region_backend checkout [] =
     (Inl (KeyError ''region''),
      checkout\<lparr>clusternames_slot := Some [''checkout-test-v001''],
        clusterdetails_slot := Some [(''checkout-test-v001'',
          \<lparr>key_serverGroups = Some
            [\<lparr>key_name = Some ''checkout-test-v001'', key_region = None,
              key_instances = Some [\<lparr>key_instanceId = Some ''i-aaa''\<rparr>]\<rparr>]\<rparr>)]\<rparr>,
      [CLUSTERS_URL ''checkout'', CLUSTERDETAILS_URL ''checkout'' ''test'' ''checkout-test-v001''])"
  by (simp add: example_defs property_defs)

lemma two_cluster_clusterdetails:
  "clusterdetails two_cluster_backend checkout [] =
     (Inr [(''checkout-test-v001'', checkout_detail), (''checkout-test-v002'', checkout_detail)],
      checkout\<lparr>clusternames_slot := Some [''checkout-test-v001'', ''checkout-test-v002''],
        clusterdetails_slot := Some [(''checkout-test-v001'', checkout_detail),
                                     (''checkout-test-v002'', checkout_detail)]\<rparr>,
      [CLUSTERS_URL ''checkout'',
       CLUSTERDETAILS_URL ''checkout'' ''test'' ''checkout-test-v001'',
       CLUSTERDETAILS_URL ''checkout'' ''test'' ''checkout-test-v002''])"
  by (simp add: two_cluster_backend_def constant_backend_def checkout_def App_init_def
      property_defs)

section \<open>Region regrouping\<close>

text \<open>
  C1, as stated, fails. The specification maps each group name to the instance list of its
  first run and lets every later run of that name contribute nothing. The loop assigns
  \<^verbatim>\<open>by_region[key]\<close> for every run, so a later run of the same name replaces the
  entry of an earlier one. With \<open>g1\<close> in the regions \<open>eu-west\<close> and \<open>us-west\<close>
  and \<open>g2\<close> in \<open>us-east\<close> between them, the code maps \<open>g1\<close> to \<open>[i-3]\<close>,
  the specification's wording to \<open>[i-1]\<close>.
\<close>

theorem regroup_first_run_counterexample:
  "regroup [(''eu-west'', ''g1'', [''i-1'']), (''us-east'', ''g2'', [''i-2'']),
            (''us-west'', ''g1'', [''i-3''])]
     = Inr [(''g1'', [''i-3'']), (''g2'', [''i-2''])] \<and>
   spec_regroup [(''eu-west'', ''g1'', [''i-1'']), (''us-east'', ''g2'', [''i-2'']),
            (''us-west'', ''g1'', [''i-3''])]
     = [(''g1'', [''i-1'']), (''g2'', [''i-2''])] \<and>
   regroup [(''eu-west'', ''g1'', [''i-1'']), (''us-east'', ''g2'', [''i-2'']),
            (''us-west'', ''g1'', [''i-3''])]
     \<noteq> Inr (spec_regroup [(''eu-west'', ''g1'', [''i-1'']), (''us-east'', ''g2'', [''i-2'']),
            (''us-west'', ''g1'', [''i-3''])])"
  by (simp add: regroup_def spec_regroup_def dict_set_def)

text \<open>
  C1, amended. For every sequence of server groups the fourth stage returns a dictionary
  and never raises. With the runs being the consecutive runs by group name of the
  sequence stably sorted by region, no run is empty, the keys are exactly the group names
  that occur, and each group name is mapped to the instance list of the first element of
  its last run (looking a name up in the reversed list of runs finds the last one). The
  sorted sequence is ordered by region and keeps the server groups of each region in
  their original order, and the runs, put end to end, are the sorted sequence. The
  property \<^verbatim>\<open>instances_by_region\<close>, read when the server groups are cached and
  its own attribute is unset, returns that dictionary.
\<close>

theorem regroup_last_run_wins:
  "\<exists>by_region.
     regroup groups = Inr by_region \<and>
     map_of by_region =
       map_of (rev (map (\<lambda>r. (fst r, snd (snd (hd (snd r)))))
                      (groupby (\<lambda>x. fst (snd x)) (sort_key (\<lambda>x. fst x) groups)))) \<and>
     [] \<notin> snd ` set (groupby (\<lambda>x. fst (snd x)) (sort_key (\<lambda>x. fst x) groups)) \<and>
     fst ` set by_region = (\<lambda>x. fst (snd x)) ` set groups \<and>
     sorted (map fst (sort_key (\<lambda>x. fst x) groups)) \<and>
     (\<forall>r. filter (\<lambda>x. fst x = r) (sort_key (\<lambda>x. fst x) groups)
            = filter (\<lambda>x. fst x = r) groups) \<and>
     concat (map snd (groupby (\<lambda>x. fst (snd x)) (sort_key (\<lambda>x. fst x) groups)))
       = sort_key (\<lambda>x. fst x) groups \<and>
     fst (instances_by_region B
            (self\<lparr>servergroups_slot := Some groups, instances_by_region_slot := None\<rparr>) log)
       = Inr by_region"
proof -
  let ?runs = "groupby (\<lambda>x. fst (snd x)) (sort_key (\<lambda>x. fst x) groups)"
  let ?d = "fold (\<lambda>r. dict_set (fst r) (snd (snd (hd (snd r))))) ?runs []"
  have r: "regroup groups = Inr ?d" by (rule regroup_fold)
  have m: "map_of ?d = map_of (rev (map (\<lambda>r. (fst r, snd (snd (hd (snd r))))) ?runs))"
    by (simp add: map_of_fold_dict_set)
  have "fst ` set ?d = dom (map_of ?d)" by (simp add: dom_map_of_conv_image_fst)
  also have "\<dots> = fst ` set ?runs"
    by (simp only: m dom_map_of_conv_image_fst) (simp add: image_image)
  also have "\<dots> = (\<lambda>x. fst (snd x)) ` set groups" by (simp add: groupby_keys)
  finally have k: "fst ` set ?d = (\<lambda>x. fst (snd x)) ` set groups" .
  have p: "fst (instances_by_region B
            (self\<lparr>servergroups_slot := Some groups, instances_by_region_slot := None\<rparr>) log)
       = Inr ?d"
    by (simp add: instances_by_region_def instances_by_region_compute_def servergroups_def r)
  have s: "sorted (map fst (sort_key (\<lambda>x. fst x) groups)) \<and>
     (\<forall>r. filter (\<lambda>x. fst x = r) (sort_key (\<lambda>x. fst x) groups)
            = filter (\<lambda>x. fst x = r) groups)"
    by (simp add: sort_key_stable sorted_sort_key)
  have c: "concat (map snd ?runs) = sort_key (\<lambda>x. fst x) groups" by (rule concat_groupby)
  have n: "[] \<notin> snd ` set ?runs" by (rule groupby_nonempty)
  from r m k p s c n show ?thesis by blast
qed

text \<open>
  C2, as stated, fails. For the three server groups of the specification's example the
  result is not the one-entry dictionary with \<open>g1\<close> alone: it has an entry for
  \<open>g2\<close> as well, which the one-entry dictionary lacks.
\<close>

theorem regroup_single_entry_counterexample:
  "regroup [(''us-east'', ''g1'', [''i-1'']), (''us-west'', ''g2'', [''i-2'']),
            (''us-east'', ''g1'', [''i-3''])] \<noteq> Inr [(''g1'', [''i-1''])] \<and>
   map_of (projr (regroup [(''us-east'', ''g1'', [''i-1'']), (''us-west'', ''g2'', [''i-2'']),
            (''us-east'', ''g1'', [''i-3''])])) ''g2'' = Some [''i-2''] \<and>
   map_of [(''g1'', [''i-1''])] ''g2'' = None"
  by (simp add: regroup_def dict_set_def)

text \<open>
  C2, amended. For the three server groups of the example, sorting by region puts the two
  \<open>us-east\<close> entries of \<open>g1\<close> first, next to each other, and the result is the
  dictionary with \<open>g1\<close> mapped to \<open>[i-1]\<close> and \<open>g2\<close> mapped to \<open>[i-2]\<close>:
  the list \<open>[i-3]\<close> of the second \<open>g1\<close> entry is dropped, not merged.
\<close>

theorem regroup_documented_example:
  "regroup [(''us-east'', ''g1'', [''i-1'']), (''us-west'', ''g2'', [''i-2'']),
            (''us-east'', ''g1'', [''i-3''])]
     = Inr [(''g1'', [''i-1'']), (''g2'', [''i-2''])] \<and>
   sort_key (\<lambda>x. fst x) [(''us-east'', ''g1'', [''i-1'']), (''us-west'', ''g2'', [''i-2'']),
            (''us-east'', ''g1'', [''i-3''])]
     = [(''us-east'', ''g1'', [''i-1'']), (''us-east'', ''g1'', [''i-3'']),
        (''us-west'', ''g2'', [''i-2''])]"
  by (simp add: regroup_def dict_set_def)

section \<open>Caching\<close>

text \<open>
  C3. A read of one of the four properties that returns a value has set the attribute of
  its stage to that value. The attribute stays set to it whatever properties are read
  afterwards, whether those reads return or raise, and every later read of the property
  returns the same value, leaves the object as it is and adds no request to the log.
  A read of a property whose attribute is set returns the attribute, on any object, for
  any service and at any request log: it neither asks the service nor looks at the other
  attributes. The computation of a stage runs only in a read that finds the attribute
  unset, hence successfully at most once per object.
\<close>

theorem derived_properties_cached:
  assumes later: "fold (access B) ps (self1, log1) = (self2, log2)"
  shows "(clusternames B self log = (Inr v1, self1, log1) \<longrightarrow>
            clusternames_slot self1 = Some v1 \<and> clusternames_slot self2 = Some v1 \<and>
            clusternames B self2 log2 = (Inr v1, self2, log2)) \<and>
         (clusterdetails B self log = (Inr v2, self1, log1) \<longrightarrow>
            clusterdetails_slot self1 = Some v2 \<and> clusterdetails_slot self2 = Some v2 \<and>
            clusterdetails B self2 log2 = (Inr v2, self2, log2)) \<and>
         (servergroups B self log = (Inr v3, self1, log1) \<longrightarrow>
            servergroups_slot self1 = Some v3 \<and> servergroups_slot self2 = Some v3 \<and>
            servergroups B self2 log2 = (Inr v3, self2, log2)) \<and>
         (instances_by_region B self log = (Inr v4, self1, log1) \<longrightarrow>
            instances_by_region_slot self1 = Some v4 \<and>
            instances_by_region_slot self2 = Some v4 \<and>
            instances_by_region B self2 log2 = (Inr v4, self2, log2)) \<and>
         (clusternames_slot s = Some w1 \<longrightarrow> clusternames B' s l = (Inr w1, s, l)) \<and>
         (clusterdetails_slot s = Some w2 \<longrightarrow> clusterdetails B' s l = (Inr w2, s, l)) \<and>
         (servergroups_slot s = Some w3 \<longrightarrow> servergroups B' s l = (Inr w3, s, l)) \<and>
         (instances_by_region_slot s = Some w4 \<longrightarrow>
            instances_by_region B' s l = (Inr w4, s, l)) \<and>
         (clusternames_slot s = None \<longrightarrow>
            clusternames B' s l = clusternames_compute B' s l) \<and>
         (clusterdetails_slot s = None \<longrightarrow>
            clusterdetails B' s l = clusterdetails_compute B' s l) \<and>
         (servergroups_slot s = None \<longrightarrow>
            servergroups B' s l = servergroups_compute B' s l) \<and>
         (instances_by_region_slot s = None \<longrightarrow>
            instances_by_region B' s l = instances_by_region_compute B' s l)"
proof -
  from accesses_grow [OF later] have g: "grows self1 self2" .
  have 1: "clusternames_slot self1 = Some v1 \<and> clusternames_slot self2 = Some v1 \<and>
           clusternames B self2 log2 = (Inr v1, self2, log2)"
    if "clusternames B self log = (Inr v1, self1, log1)"
    using clusternames_sets_slot [OF that] g by (simp add: grows_def clusternames_cached)
  have 2: "clusterdetails_slot self1 = Some v2 \<and> clusterdetails_slot self2 = Some v2 \<and>
           clusterdetails B self2 log2 = (Inr v2, self2, log2)"
    if "clusterdetails B self log = (Inr v2, self1, log1)"
    using clusterdetails_sets_slot [OF that] g by (simp add: grows_def clusterdetails_cached)
  have 3: "servergroups_slot self1 = Some v3 \<and> servergroups_slot self2 = Some v3 \<and>
           servergroups B self2 log2 = (Inr v3, self2, log2)"
    if "servergroups B self log = (Inr v3, self1, log1)"
    using servergroups_sets_slot [OF that] g by (simp add: grows_def servergroups_cached)
  have 4: "instances_by_region_slot self1 = Some v4 \<and>
           instances_by_region_slot self2 = Some v4 \<and>
           instances_by_region B self2 log2 = (Inr v4, self2, log2)"
    if "instances_by_region B self log = (Inr v4, self1, log1)"
    using instances_by_region_sets_slot [OF that] g
    by (simp add: grows_def instances_by_region_cached)
  have 5: "(clusternames_slot s = Some w1 \<longrightarrow> clusternames B' s l = (Inr w1, s, l)) \<and>
         (clusterdetails_slot s = Some w2 \<longrightarrow> clusterdetails B' s l = (Inr w2, s, l)) \<and>
         (servergroups_slot s = Some w3 \<longrightarrow> servergroups B' s l = (Inr w3, s, l)) \<and>
         (instances_by_region_slot s = Some w4 \<longrightarrow>
            instances_by_region B' s l = (Inr w4, s, l))"
    by (simp add: clusternames_def clusterdetails_def servergroups_def instances_by_region_def)
  have 6: "(clusternames_slot s = None \<longrightarrow>
            clusternames B' s l = clusternames_compute B' s l) \<and>
         (clusterdetails_slot s = None \<longrightarrow>
            clusterdetails B' s l = clusterdetails_compute B' s l) \<and>
         (servergroups_slot s = None \<longrightarrow>
            servergroups B' s l = servergroups_compute B' s l) \<and>
         (instances_by_region_slot s = None \<longrightarrow>
            instances_by_region B' s l = instances_by_region_compute B' s l)"
    by (simp add: clusternames_def clusterdetails_def servergroups_def instances_by_region_def)
  from 1 2 3 4 5 6 show ?thesis by blast
qed

theorem derived_properties_cached_witness:
  "clusternames checkout_backend
     (checkout\<lparr>clusternames_slot := Some [''checkout-test-v001''],
        clusterdetails_slot := Some [(''checkout-test-v001'', checkout_detail)],
        servergroups_slot := Some [(''us-east-1'', ''checkout-test-v001'', [''i-aaa'', ''i-bbb''])],
        instances_by_region_slot := Some [(''checkout-test-v001'', [''i-aaa'', ''i-bbb''])]\<rparr>)
     [CLUSTERS_URL ''checkout'', CLUSTERDETAILS_URL ''checkout'' ''test'' ''checkout-test-v001'']
   = (Inr [''checkout-test-v001''],
      checkout\<lparr>clusternames_slot := Some [''checkout-test-v001''],
        clusterdetails_slot := Some [(''checkout-test-v001'', checkout_detail)],
        servergroups_slot := Some [(''us-east-1'', ''checkout-test-v001'', [''i-aaa'', ''i-bbb''])],
        instances_by_region_slot := Some [(''checkout-test-v001'', [''i-aaa'', ''i-bbb''])]\<rparr>,
      [CLUSTERS_URL ''checkout'', CLUSTERDETAILS_URL ''checkout'' ''test'' ''checkout-test-v001''])
   \<and>
   instances_by_region checkout_backend
     (checkout\<lparr>clusternames_slot := Some [''checkout-test-v001''],
        clusterdetails_slot := Some [(''checkout-test-v001'', checkout_detail)],
        servergroups_slot := Some [(''us-east-1'', ''checkout-test-v001'', [''i-aaa'', ''i-bbb''])],
        instances_by_region_slot := Some [(''checkout-test-v001'', [''i-aaa'', ''i-bbb''])]\<rparr>)
     [CLUSTERS_URL ''checkout'', CLUSTERDETAILS_URL ''checkout'' ''test'' ''checkout-test-v001'']
   = (Inr [(''checkout-test-v001'', [''i-aaa'', ''i-bbb''])],
      checkout\<lparr>clusternames_slot := Some [''checkout-test-v001''],
        clusterdetails_slot := Some [(''checkout-test-v001'', checkout_detail)],
        servergroups_slot := Some [(''us-east-1'', ''checkout-test-v001'', [''i-aaa'', ''i-bbb''])],
        instances_by_region_slot := Some [(''checkout-test-v001'', [''i-aaa'', ''i-bbb''])]\<rparr>,
      [CLUSTERS_URL ''checkout'', CLUSTERDETAILS_URL ''checkout'' ''test'' ''checkout-test-v001''])"
proof
  from derived_properties_cached [OF checkout_later_instances,
      where self = checkout and log = "[]" and ?v1.0 = "[''checkout-test-v001'']"]
    checkout_clusternames
  show "clusternames checkout_backend
     (checkout\<lparr>clusternames_slot := Some [''checkout-test-v001''],
        clusterdetails_slot := Some [(''checkout-test-v001'', checkout_detail)],
        servergroups_slot := Some [(''us-east-1'', ''checkout-test-v001'', [''i-aaa'', ''i-bbb''])],
        instances_by_region_slot := Some [(''checkout-test-v001'', [''i-aaa'', ''i-bbb''])]\<rparr>)
     [CLUSTERS_URL ''checkout'', CLUSTERDETAILS_URL ''checkout'' ''test'' ''checkout-test-v001'']
   = (Inr [''checkout-test-v001''],
      checkout\<lparr>clusternames_slot := Some [''checkout-test-v001''],
        clusterdetails_slot := Some [(''checkout-test-v001'', checkout_detail)],
        servergroups_slot := Some [(''us-east-1'', ''checkout-test-v001'', [''i-aaa'', ''i-bbb''])],
        instances_by_region_slot := Some [(''checkout-test-v001'', [''i-aaa'', ''i-bbb''])]\<rparr>,
      [CLUSTERS_URL ''checkout'', CLUSTERDETAILS_URL ''checkout'' ''test'' ''checkout-test-v001''])"
    by blast
  from derived_properties_cached [OF checkout_later_all,
      where self = checkout and log = "[]"
        and ?v4.0 = "[(''checkout-test-v001'', [''i-aaa'', ''i-bbb''])]"]
    checkout_instances_by_region
  show "instances_by_region checkout_backend
     (checkout\<lparr>clusternames_slot := Some [''checkout-test-v001''],
        clusterdetails_slot := Some [(''checkout-test-v001'', checkout_detail)],
        servergroups_slot := Some [(''us-east-1'', ''checkout-test-v001'', [''i-aaa'', ''i-bbb''])],
        instances_by_region_slot := Some [(''checkout-test-v001'', [''i-aaa'', ''i-bbb''])]\<rparr>)
     [CLUSTERS_URL ''checkout'', CLUSTERDETAILS_URL ''checkout'' ''test'' ''checkout-test-v001'']
   = (Inr [(''checkout-test-v001'', [''i-aaa'', ''i-bbb''])],
      checkout\<lparr>clusternames_slot := Some [''checkout-test-v001''],
        clusterdetails_slot := Some [(''checkout-test-v001'', checkout_detail)],
        servergroups_slot := Some [(''us-east-1'', ''checkout-test-v001'', [''i-aaa'', ''i-bbb''])],
        instances_by_region_slot := Some [(''checkout-test-v001'', [''i-aaa'', ''i-bbb''])]\<rparr>,
      [CLUSTERS_URL ''checkout'', CLUSTERDETAILS_URL ''checkout'' ''test'' ''checkout-test-v001''])"
    by blast
qed

section \<open>Failures\<close>

text \<open>
  What holds of a read that raised, whichever operation inside it failed: the attribute
  of its stage is unset, the attributes of the later stages are as they were, the
  attributes of the earlier stages are kept, and the error is the one of the operation
  that failed.
\<close>

lemma failed_read_frame:
  "(clusternames B self log = (Inl e, self', log') \<longrightarrow>
      self' = self \<and> clusternames_slot self' = None \<and>
      (get_clusters B log (CLUSTERS_URL (App.name self)) = Inl e \<or>
       (\<exists>body. get_clusters B log (CLUSTERS_URL (App.name self)) = Inr body \<and>
          getitem body (Account.name (account self)) = Inl e)) \<and>
      clusternames B self' log2 = clusternames_compute B self' log2) \<and>
   (clusterdetails B self log = (Inl e, self', log') \<longrightarrow>
      clusterdetails_slot self' = None \<and> grows self self' \<and>
      servergroups_slot self' = servergroups_slot self \<and>
      instances_by_region_slot self' = instances_by_region_slot self \<and>
      (clusternames_slot self \<noteq> None \<longrightarrow> self' = self) \<and>
      (fst (clusternames B self log) = Inl e \<or>
       (\<exists>names log1 i. clusternames B self log = (Inr names, self', log1) \<and> i < length names \<and>
          get_clusterdetails B (log1 @ map (detail_url self) (take i names))
            (detail_url self (names ! i)) = Inl e \<and>
          log' = log1 @ map (detail_url self) (take (Suc i) names))) \<and>
      clusterdetails B self' log2 = clusterdetails_compute B self' log2) \<and>
   (servergroups B self log = (Inl e, self', log') \<longrightarrow>
      servergroups_slot self' = None \<and> grows self self' \<and>
      instances_by_region_slot self' = instances_by_region_slot self \<and>
      (clusterdetails_slot self \<noteq> None \<longrightarrow> self' = self) \<and>
      (fst (clusterdetails B self log) = Inl e \<or>
       (\<exists>details. fst (clusterdetails B self log) = Inr details \<and>
          extract_clusters details (map fst details) [] = Inl e)) \<and>
      servergroups B self' log2 = servergroups_compute B self' log2) \<and>
   (instances_by_region B self log = (Inl e, self', log') \<longrightarrow>
      instances_by_region_slot self' = None \<and> grows self self' \<and>
      servergroups_slot self = None \<and>
      fst (servergroups B self log) = Inl e \<and>
      instances_by_region B self' log2 = instances_by_region_compute B self' log2)"
proof (intro conjI impI)
  assume a: "clusternames B self log = (Inl e, self', log')"
  then show "self' = self" by (cases rule: clusternames_cases) auto
  from a show "clusternames_slot self' = None" by (cases rule: clusternames_cases) auto
  then show "clusternames B self' log2 = clusternames_compute B self' log2"
    by (simp add: clusternames_def)
  from a show "get_clusters B log (CLUSTERS_URL (App.name self)) = Inl e \<or>
       (\<exists>body. get_clusters B log (CLUSTERS_URL (App.name self)) = Inr body \<and>
          getitem body (Account.name (account self)) = Inl e)"
    by (auto simp: clusternames_def clusternames_compute_def Let_def
        split: option.splits sum.splits)
next
  assume a: "clusterdetails B self log = (Inl e, self', log')"
  from clusterdetails_frame [OF a]
  show "grows self self'" "servergroups_slot self' = servergroups_slot self"
    "instances_by_region_slot self' = instances_by_region_slot self" by simp_all
  from a have n: "clusterdetails_slot self = None" by (cases rule: clusterdetails_cases) auto
  from a show s: "clusterdetails_slot self' = None"
  proof (cases rule: clusterdetails_cases)
    case (names_failed e')
    from clusternames_frame [OF names_failed(2)] n show ?thesis by simp
  next
    case (fetch_failed names log1 e')
    from clusternames_frame [OF fetch_failed(2)] n show ?thesis by simp
  qed auto
  then show "clusterdetails B self' log2 = clusterdetails_compute B self' log2"
    by (simp add: clusterdetails_def)
  show "self' = self" if "clusternames_slot self \<noteq> None"
    using a
  proof (cases rule: clusterdetails_cases)
    case (names_failed e')
    then show ?thesis by (auto elim: clusternames_cases)
  next
    case (fetch_failed names log1 e')
    with that show ?thesis by (auto elim: clusternames_cases)
  qed auto
  from a show "fst (clusternames B self log) = Inl e \<or>
       (\<exists>names log1 i. clusternames B self log = (Inr names, self', log1) \<and> i < length names \<and>
          get_clusterdetails B (log1 @ map (detail_url self) (take i names))
            (detail_url self (names ! i)) = Inl e \<and>
          log' = log1 @ map (detail_url self) (take (Suc i) names))"
  proof (cases rule: clusterdetails_cases)
    case (names_failed e')
    then show ?thesis by simp
  next
    case (fetch_failed names log1 e')
    from clusternames_frame [OF fetch_failed(2)]
    have "detail_url self' = detail_url self" by (auto simp: detail_url_def grows_def)
    with fetch_details_Inl [OF fetch_failed(3)] fetch_failed(2,4)
    show ?thesis by auto
  qed auto
next
  assume a: "servergroups B self log = (Inl e, self', log')"
  from servergroups_frame [OF a]
  show "grows self self'" "instances_by_region_slot self' = instances_by_region_slot self"
    by simp_all
  from a have n: "servergroups_slot self = None" by (cases rule: servergroups_cases) auto
  from a show s: "servergroups_slot self' = None"
  proof (cases rule: servergroups_cases)
    case (details_failed e')
    from clusterdetails_frame [OF details_failed(2)] n show ?thesis by simp
  next
    case (extract_failed details e')
    from clusterdetails_frame [OF extract_failed(2)] n show ?thesis by simp
  qed auto
  then show "servergroups B self' log2 = servergroups_compute B self' log2"
    by (simp add: servergroups_def)
  show "self' = self" if "clusterdetails_slot self \<noteq> None"
    using a
  proof (cases rule: servergroups_cases)
    case (details_failed e')
    with that show ?thesis by (auto elim: clusterdetails_cases)
  next
    case (extract_failed details e')
    with that show ?thesis by (auto elim: clusterdetails_cases)
  qed auto
  from a show "fst (clusterdetails B self log) = Inl e \<or>
       (\<exists>details. fst (clusterdetails B self log) = Inr details \<and>
          extract_clusters details (map fst details) [] = Inl e)"
    by (cases rule: servergroups_cases) auto
next
  assume a: "instances_by_region B self log = (Inl e, self', log')"
  from instances_by_region_frame [OF a] show "grows self self'" .
  from a have n: "instances_by_region_slot self = None"
    by (cases rule: instances_by_region_cases) auto
  from a have f: "servergroups B self log = (Inl e, self', log')"
    by (cases rule: instances_by_region_cases) (auto simp: regroup_not_Inl)
  then show "fst (servergroups B self log) = Inl e" by simp
  from f show "servergroups_slot self = None" by (cases rule: servergroups_cases) auto
  from servergroups_frame [OF f] n show "instances_by_region_slot self' = None" by simp
  then show "instances_by_region B self' log2 = instances_by_region_compute B self' log2"
    by (simp add: instances_by_region_def)
qed

text \<open>
  The loops stop at the first operation that fails and return its error: the loop over
  the cluster names at the first request the service answers with an error, the loops of
  the extraction at the first subscript with a missing key.
\<close>

lemma clusternames_Inr:
  assumes "clusternames B self log = (Inr v, self', log')"
  shows "self' = self\<lparr>clusternames_slot := Some v\<rparr>"
  using assms by (cases rule: clusternames_cases) auto

lemma fetch_details_fails_at:
  assumes "i < length names"
    and "\<forall>j<i. \<not> isl (get_clusterdetails B (log @ map (detail_url self) (take j names))
                     (detail_url self (names ! j)))"
    and "get_clusterdetails B (log @ map (detail_url self) (take i names))
           (detail_url self (names ! i)) = Inl e"
  shows "fetch_details B self names d log =
           (Inl e, log @ map (detail_url self) (take (Suc i) names))"
  using assms
proof (induction names arbitrary: i d log)
  case Nil
  then show ?case by simp
next
  case (Cons c rest)
  show ?case
  proof (cases i)
    case 0
    with Cons.prems(3) show ?thesis by (simp add: detail_url_def Let_def)
  next
    case (Suc k)
    from Cons.prems(2) Suc
    have "\<not> isl (get_clusterdetails B (log @ map (detail_url self) (take 0 (c # rest)))
                  (detail_url self ((c # rest) ! 0)))" by blast
    then obtain body where b: "get_clusterdetails B log (detail_url self c) = Inr body"
      by (cases "get_clusterdetails B log (detail_url self c)") auto
    have ok: "\<forall>j<k. \<not> isl (get_clusterdetails B
                 ((log @ [detail_url self c]) @ map (detail_url self) (take j rest))
                 (detail_url self (rest ! j)))"
    proof (intro allI impI)
      fix j assume "j < k"
      with Suc have "Suc j < i" by simp
      with Cons.prems(2) show "\<not> isl (get_clusterdetails B
                 ((log @ [detail_url self c]) @ map (detail_url self) (take j rest))
                 (detail_url self (rest ! j)))"
        by fastforce
    qed
    from Cons.prems(1) Suc have k: "k < length rest" by simp
    from Cons.prems(3) Suc
    have f: "get_clusterdetails B ((log @ [detail_url self c]) @ map (detail_url self) (take k rest))
               (detail_url self (rest ! k)) = Inl e" by simp
    from Cons.IH [OF k ok f, of "dict_set c body d"] b Suc
    show ?thesis by (simp add: detail_url_def Let_def)
  qed
qed

lemma instance_ids_missing:
  "\<forall>x\<in>set ipre. key_instanceId x \<noteq> None \<Longrightarrow> key_instanceId inst = None \<Longrightarrow>
   instance_ids (ipre @ inst # irest) = Inl (KeyError ''instanceId'')"
  by (induction ipre) (auto simp: subscript_def)

lemma extract_elements_first_failure:
  "\<forall>y\<in>set pre. \<not> isl (extract_element y) \<Longrightarrow> extract_element x = Inl e \<Longrightarrow>
   extract_elements (pre @ x # rest) groups = Inl e"
proof (induction pre arbitrary: groups)
  case Nil
  then show ?case by simp
next
  case (Cons a pre)
  from Cons.prems(1) obtain t where "extract_element a = Inr t"
    by (cases "extract_element a") auto
  with Cons show ?case by simp
qed

lemma extract_elements_ok:
  "\<forall>y\<in>set els. \<not> isl (extract_element y) \<Longrightarrow> \<exists>g. extract_elements els groups = Inr g"
proof (induction els arbitrary: groups)
  case Nil
  then show ?case by simp
next
  case (Cons a els)
  from Cons.prems obtain t where "extract_element a = Inr t"
    by (cases "extract_element a") auto
  with Cons show ?case by simp
qed

lemma extract_clusters_append:
  "extract_clusters details (xs @ ys) groups =
     (case extract_clusters details xs groups of
        Inl e \<Rightarrow> Inl e
      | Inr g \<Rightarrow> extract_clusters details ys g)"
  by (induction xs arbitrary: groups) (auto split: sum.splits)

lemma extract_clusters_prefix:
  assumes "\<forall>c\<in>set cpre. \<exists>p els. map_of details c = Some p \<and> key_serverGroups p = Some els \<and>
          (\<forall>x\<in>set els. \<not> isl (extract_element x))"
  shows "\<exists>g. extract_clusters details cpre groups = Inr g"
  using assms
proof (induction cpre arbitrary: groups)
  case Nil
  then show ?case by simp
next
  case (Cons c cpre)
  from Cons.prems obtain p els where p: "map_of details c = Some p"
    "key_serverGroups p = Some els" "\<forall>x\<in>set els. \<not> isl (extract_element x)" by auto
  from extract_elements_ok [OF p(3), of groups] obtain g where
    g: "extract_elements els groups = Inr g" by blast
  from Cons.prems have "\<forall>c\<in>set cpre. \<exists>p els. map_of details c = Some p \<and>
     key_serverGroups p = Some els \<and> (\<forall>x\<in>set els. \<not> isl (extract_element x))" by simp
  from Cons.IH [OF this, of g] p g show ?case by (simp add: getitem_def subscript_def)
qed

text \<open>
  The failure of each operation inside each stage, in the form in which the statement on
  failing stages below collects them.
\<close>

lemma clusternames_request_fails:
  "clusternames_slot self = None \<and>
     get_clusters B log (CLUSTERS_URL (App.name self)) = Inl e \<longrightarrow>
   clusternames B self log = (Inl e, self, log @ [CLUSTERS_URL (App.name self)])"
  by (simp add: clusternames_def clusternames_compute_def Let_def)

lemma clusternames_account_missing:
  "clusternames_slot self = None \<and>
     get_clusters B log (CLUSTERS_URL (App.name self)) = Inr body \<and>
     map_of body (Account.name (account self)) = None \<longrightarrow>
   clusternames B self log =
     (Inl (KeyError (Account.name (account self))), self, log @ [CLUSTERS_URL (App.name self)])"
  by (simp add: clusternames_def clusternames_compute_def getitem_def Let_def)

lemma clusterdetails_names_fail:
  "clusterdetails_slot self = None \<and> clusternames B self log = (Inl e, self1, log1) \<longrightarrow>
   clusterdetails B self log = (Inl e, self, log1) \<and> self1 = self"
  by (auto simp: clusterdetails_def clusterdetails_compute_def elim: clusternames_cases)

lemma clusterdetails_request_fails:
  "clusterdetails_slot self = None \<and> clusternames B self log = (Inr names, self1, log1) \<and>
     i < length names \<and>
     (\<forall>j<i. \<not> isl (get_clusterdetails B (log1 @ map (detail_url self) (take j names))
                       (detail_url self (names ! j)))) \<and>
     get_clusterdetails B (log1 @ map (detail_url self) (take i names))
       (detail_url self (names ! i)) = Inl e \<longrightarrow>
   clusterdetails B self log =
     (Inl e, self1, log1 @ map (detail_url self) (take (Suc i) names)) \<and>
   self1 = self\<lparr>clusternames_slot := Some names\<rparr> \<and> clusterdetails_slot self1 = None"
proof (intro impI, elim conjE)
  assume n: "clusterdetails_slot self = None"
    and c: "clusternames B self log = (Inr names, self1, log1)"
    and i: "i < length names"
    and ok: "\<forall>j<i. \<not> isl (get_clusterdetails B (log1 @ map (detail_url self) (take j names))
                       (detail_url self (names ! j)))"
    and f: "get_clusterdetails B (log1 @ map (detail_url self) (take i names))
       (detail_url self (names ! i)) = Inl e"
  from c have s1: "self1 = self\<lparr>clusternames_slot := Some names\<rparr>"
    by (cases rule: clusternames_cases) auto
  then have u: "detail_url self1 = detail_url self" by (auto simp: detail_url_def)
  from fetch_details_fails_at [of i names B log1 self1 e "[]"] i ok f u
  have "fetch_details B self1 names [] log1 =
          (Inl e, log1 @ map (detail_url self) (take (Suc i) names))" by simp
  with n c have "clusterdetails B self log =
     (Inl e, self1, log1 @ map (detail_url self) (take (Suc i) names))"
    by (simp add: clusterdetails_def clusterdetails_compute_def)
  moreover from s1 n have "clusterdetails_slot self1 = None" by simp
  ultimately show "clusterdetails B self log =
     (Inl e, self1, log1 @ map (detail_url self) (take (Suc i) names)) \<and>
   self1 = self\<lparr>clusternames_slot := Some names\<rparr> \<and> clusterdetails_slot self1 = None"
    using s1 by simp
qed

lemma servergroups_details_fail:
  "servergroups_slot self = None \<and> clusterdetails B self log = (Inl e, self2, log2) \<longrightarrow>
   servergroups B self log = (Inl e, self2, log2) \<and>
   servergroups_slot self2 = None \<and> clusterdetails_slot self2 = None"
proof (intro impI, elim conjE)
  assume n: "servergroups_slot self = None"
    and c: "clusterdetails B self log = (Inl e, self2, log2)"
  from clusterdetails_frame [OF c] n have 1: "servergroups_slot self2 = None" by simp
  from c have 2: "clusterdetails_slot self2 = None"
    by (cases rule: clusterdetails_cases) (auto dest: clusternames_frame)
  from servergroups_after_clusterdetails_failed [OF n c] 1 2
  show "servergroups B self log = (Inl e, self2, log2) \<and>
   servergroups_slot self2 = None \<and> clusterdetails_slot self2 = None" by simp
qed

lemma servergroups_extraction_fails:
  "servergroups_slot self = None \<and> clusterdetails B self log = (Inr details, self2, log2) \<and>
     extract_clusters details (map fst details) [] = Inl e \<longrightarrow>
   servergroups B self log = (Inl e, self2, log2) \<and>
   servergroups_slot self2 = None \<and> clusterdetails_slot self2 = Some details"
proof (intro impI, elim conjE)
  assume n: "servergroups_slot self = None"
    and c: "clusterdetails B self log = (Inr details, self2, log2)"
    and x: "extract_clusters details (map fst details) [] = Inl e"
  from clusterdetails_frame [OF c] n have 1: "servergroups_slot self2 = None" by simp
  from n c x have "servergroups B self log = (Inl e, self2, log2)"
    by (simp add: servergroups_def servergroups_compute_def)
  with 1 clusterdetails_sets_slot [OF c]
  show "servergroups B self log = (Inl e, self2, log2) \<and>
   servergroups_slot self2 = None \<and> clusterdetails_slot self2 = Some details" by simp
qed

lemma instances_by_region_groups_fail:
  "instances_by_region_slot self = None \<and> servergroups B self log = (Inl e, self3, log3) \<longrightarrow>
   instances_by_region B self log = (Inl e, self3, log3) \<and>
   instances_by_region_slot self3 = None \<and> servergroups_slot self3 = None"
proof (intro impI, elim conjE)
  assume n: "instances_by_region_slot self = None"
    and c: "servergroups B self log = (Inl e, self3, log3)"
  from servergroups_frame [OF c] n have 1: "instances_by_region_slot self3 = None" by simp
  from c have 2: "servergroups_slot self3 = None"
    by (cases rule: servergroups_cases) (auto dest: clusterdetails_frame)
  from instances_by_region_after_servergroups_failed [OF n c] 1 2
  show "instances_by_region B self log = (Inl e, self3, log3) \<and>
   instances_by_region_slot self3 = None \<and> servergroups_slot self3 = None" by simp
qed

lemma element_name_missing:
  "key_name element = None \<longrightarrow> extract_element element = Inl (KeyError ''name'')"
  by (simp add: extract_element_def subscript_def)

lemma element_region_missing:
  "key_name element \<noteq> None \<and> key_region element = None \<longrightarrow>
   extract_element element = Inl (KeyError ''region'')"
  by (auto simp: extract_element_def subscript_def)

lemma element_instances_missing:
  "key_name element \<noteq> None \<and> key_region element \<noteq> None \<and> key_instances element = None \<longrightarrow>
   extract_element element = Inl (KeyError ''instances'')"
  by (auto simp: extract_element_def subscript_def)

lemma element_instanceId_missing:
  "key_name element \<noteq> None \<and> key_region element \<noteq> None \<and>
     key_instances element = Some (ipre @ inst # irest) \<and>
     (\<forall>x\<in>set ipre. key_instanceId x \<noteq> None) \<and> key_instanceId inst = None \<longrightarrow>
   extract_element element = Inl (KeyError ''instanceId'')"
  by (auto simp: extract_element_def subscript_def instance_ids_missing)

lemma clusters_serverGroups_missing:
  "(\<forall>c\<in>set cpre. \<exists>p els. map_of details c = Some p \<and> key_serverGroups p = Some els \<and>
          (\<forall>x\<in>set els. \<not> isl (extract_element x))) \<and>
     map_of details c = Some payload \<and> key_serverGroups payload = None \<longrightarrow>
   extract_clusters details (cpre @ c # crest) groups = Inl (KeyError ''serverGroups'')"
proof (intro impI, elim conjE)
  assume p: "\<forall>c\<in>set cpre. \<exists>p els. map_of details c = Some p \<and> key_serverGroups p = Some els \<and>
          (\<forall>x\<in>set els. \<not> isl (extract_element x))"
    and m: "map_of details c = Some payload" and k: "key_serverGroups payload = None"
  from extract_clusters_prefix [OF p, of groups] obtain g where
    "extract_clusters details cpre groups = Inr g" by blast
  with m k show "extract_clusters details (cpre @ c # crest) groups = Inl (KeyError ''serverGroups'')"
    by (simp add: extract_clusters_append getitem_def subscript_def)
qed

lemma clusters_element_fails:
  "(\<forall>c\<in>set cpre. \<exists>p els. map_of details c = Some p \<and> key_serverGroups p = Some els \<and>
          (\<forall>x\<in>set els. \<not> isl (extract_element x))) \<and>
     map_of details c = Some payload \<and> key_serverGroups payload = Some (pre @ x # rest) \<and>
     (\<forall>y\<in>set pre. \<not> isl (extract_element y)) \<and> extract_element x = Inl e \<longrightarrow>
   extract_clusters details (cpre @ c # crest) groups = Inl e"
proof (intro impI, elim conjE)
  assume p: "\<forall>c\<in>set cpre. \<exists>p els. map_of details c = Some p \<and> key_serverGroups p = Some els \<and>
          (\<forall>x\<in>set els. \<not> isl (extract_element x))"
    and m: "map_of details c = Some payload"
    and k: "key_serverGroups payload = Some (pre @ x # rest)"
    and ok: "\<forall>y\<in>set pre. \<not> isl (extract_element y)" and f: "extract_element x = Inl e"
  from extract_clusters_prefix [OF p, of groups] obtain g where
    "extract_clusters details cpre groups = Inr g" by blast
  with m k extract_elements_first_failure [OF ok f]
  show "extract_clusters details (cpre @ c # crest) groups = Inl e"
    by (simp add: extract_clusters_append getitem_def subscript_def)
qed

lemma clusternames_failed_read:
  "clusternames B self log = (Inl e, self', log') \<longrightarrow>
   self' = self \<and> clusternames_slot self' = None \<and>
   clusternames B2 self' log2 = clusternames_compute B2 self' log2"
  using failed_read_frame [where B = B and self = self and log = log and e = e
      and self' = self' and log' = log']
  by (auto simp: clusternames_def)

lemma clusterdetails_failed_read:
  "clusterdetails B self log = (Inl e, self', log') \<longrightarrow>
   clusterdetails_slot self' = None \<and> grows self self' \<and>
   servergroups_slot self' = servergroups_slot self \<and>
   instances_by_region_slot self' = instances_by_region_slot self \<and>
   (clusternames_slot self \<noteq> None \<longrightarrow> self' = self) \<and>
   clusterdetails B2 self' log2 = clusterdetails_compute B2 self' log2"
  using failed_read_frame [where B = B and self = self and log = log and e = e
      and self' = self' and log' = log']
  by (auto simp: clusterdetails_def)

lemma servergroups_failed_read:
  "servergroups B self log = (Inl e, self', log') \<longrightarrow>
   servergroups_slot self' = None \<and> grows self self' \<and>
   instances_by_region_slot self' = instances_by_region_slot self \<and>
   (clusterdetails_slot self \<noteq> None \<longrightarrow> self' = self) \<and>
   servergroups B2 self' log2 = servergroups_compute B2 self' log2"
  using failed_read_frame [where B = B and self = self and log = log and e = e
      and self' = self' and log' = log']
  by (auto simp: servergroups_def)

lemma instances_by_region_failed_read:
  "instances_by_region B self log = (Inl e, self', log') \<longrightarrow>
   instances_by_region_slot self' = None \<and> grows self self' \<and>
   servergroups_slot self = None \<and> fst (servergroups B self log) = Inl e \<and>
   instances_by_region B2 self' log2 = instances_by_region_compute B2 self' log2"
  using failed_read_frame [where B = B and self = self and log = log and e = e
      and self' = self' and log' = log']
  by (auto simp: instances_by_region_def)

lemma timeout_clusternames:
  "clusternames timeout_backend checkout [] =
     (Inr [''checkout-test-v001''],
      checkout\<lparr>clusternames_slot := Some [''checkout-test-v001'']\<rparr>,
      [CLUSTERS_URL ''checkout''])"
  by (simp add: example_defs property_defs)

lemma no_region_clusterdetails:
  "clusterdetails no_region_backend checkout [] =
     (Inr [(''checkout-test-v001'',
          \<lparr>key_serverGroups = Some
            [\<lparr>key_name = Some ''checkout-test-v001'', key_region = None,
              key_instances = Some [\<lparr>key_instanceId = Some ''i-aaa''\<rparr>]\<rparr>]\<rparr>)],
      checkout\<lparr>clusternames_slot := Some [''checkout-test-v001''],
        clusterdetails_slot := Some [(''checkout-test-v001'',
          \<lparr>key_serverGroups = Some
            [\<lparr>key_name = Some ''checkout-test-v001'', key_region = None,
              key_instances = Some [\<lparr>key_instanceId = Some ''i-aaa''\<rparr>]\<rparr>]\<rparr>)]\<rparr>,
      [CLUSTERS_URL ''checkout'', CLUSTERDETAILS_URL ''checkout'' ''test'' ''checkout-test-v001''])"
  by (simp add: example_defs property_defs)

text \<open>
  C5. For each of the four stages, when the computation of the stage fails, the read of
  its property raises the error of the operation that failed, unchanged: the error of the
  listing request or the \<open>KeyError\<close> of the account name in the first stage; the error
  of the first details request that the service refuses in the second; the \<open>KeyError\<close>
  of the first missing key \<open>serverGroups\<close>, \<open>name\<close>, \<open>region\<close>,
  \<open>instances\<close> or \<open>instanceId\<close> in the third; and the error of the stage before
  in the second, third and fourth (the regrouping itself cannot fail). The attribute of the
  failing stage is unset afterwards and the object is exactly as the read of the stage
  before left it, the very object from before the read when that stage was cached already:
  the failing stage changes no attribute and caches nothing partial, not even the bodies
  fetched before the request that failed. The last four parts say the same of any read
  that raised, and that a later read of the property, for any service, runs the whole
  computation of its stage again.
\<close>

theorem stage_failure_propagates:
  "(clusternames_slot self = None \<and>
        get_clusters B log (CLUSTERS_URL (App.name self)) = Inl e \<longrightarrow>
      clusternames B self log = (Inl e, self, log @ [CLUSTERS_URL (App.name self)])) \<and>
   (clusternames_slot self = None \<and>
        get_clusters B log (CLUSTERS_URL (App.name self)) = Inr body \<and>
        map_of body (Account.name (account self)) = None \<longrightarrow>
      clusternames B self log =
        (Inl (KeyError (Account.name (account self))), self, log @ [CLUSTERS_URL (App.name self)])) \<and>
   (clusterdetails_slot self = None \<and> clusternames B self log = (Inl e, self1, log1) \<longrightarrow>
      clusterdetails B self log = (Inl e, self, log1) \<and> self1 = self) \<and>
   (clusterdetails_slot self = None \<and> clusternames B self log = (Inr names, self1, log1) \<and>
        i < length names \<and>
        (\<forall>j<i. \<not> isl (get_clusterdetails B (log1 @ map (detail_url self) (take j names))
                          (detail_url self (names ! j)))) \<and>
        get_clusterdetails B (log1 @ map (detail_url self) (take i names))
          (detail_url self (names ! i)) = Inl e \<longrightarrow>
      clusterdetails B self log =
        (Inl e, self1, log1 @ map (detail_url self) (take (Suc i) names)) \<and>
      self1 = self\<lparr>clusternames_slot := Some names\<rparr> \<and> clusterdetails_slot self1 = None) \<and>
   (servergroups_slot self = None \<and> clusterdetails B self log = (Inl e, self2, log2) \<longrightarrow>
      servergroups B self log = (Inl e, self2, log2) \<and>
      servergroups_slot self2 = None \<and> clusterdetails_slot self2 = None) \<and>
   (servergroups_slot self = None \<and> clusterdetails B self log = (Inr details, self2, log2) \<and>
        extract_clusters details (map fst details) [] = Inl e \<longrightarrow>
      servergroups B self log = (Inl e, self2, log2) \<and>
      servergroups_slot self2 = None \<and> clusterdetails_slot self2 = Some details) \<and>
   (instances_by_region_slot self = None \<and> servergroups B self log = (Inl e, self3, log3) \<longrightarrow>
      instances_by_region B self log = (Inl e, self3, log3) \<and>
      instances_by_region_slot self3 = None \<and> servergroups_slot self3 = None) \<and>
   (key_name element = None \<longrightarrow> extract_element element = Inl (KeyError ''name'')) \<and>
   (key_name element \<noteq> None \<and> key_region element = None \<longrightarrow>
      extract_element element = Inl (KeyError ''region'')) \<and>
   (key_name element \<noteq> None \<and> key_region element \<noteq> None \<and> key_instances element = None \<longrightarrow>
      extract_element element = Inl (KeyError ''instances'')) \<and>
   (key_name element \<noteq> None \<and> key_region element \<noteq> None \<and>
        key_instances element = Some (ipre @ inst # irest) \<and>
        (\<forall>x\<in>set ipre. key_instanceId x \<noteq> None) \<and> key_instanceId inst = None \<longrightarrow>
      extract_element element = Inl (KeyError ''instanceId'')) \<and>
   ((\<forall>c\<in>set cpre. \<exists>p els. map_of details c = Some p \<and> key_serverGroups p = Some els \<and>
             (\<forall>x\<in>set els. \<not> isl (extract_element x))) \<and>
        map_of details c = Some payload \<and> key_serverGroups payload = None \<longrightarrow>
      extract_clusters details (cpre @ c # crest) groups = Inl (KeyError ''serverGroups'')) \<and>
   ((\<forall>c\<in>set cpre. \<exists>p els. map_of details c = Some p \<and> key_serverGroups p = Some els \<and>
             (\<forall>x\<in>set els. \<not> isl (extract_element x))) \<and>
        map_of details c = Some payload \<and> key_serverGroups payload = Some (pre @ x # rest) \<and>
        (\<forall>y\<in>set pre. \<not> isl (extract_element y)) \<and> extract_element x = Inl e \<longrightarrow>
      extract_clusters details (cpre @ c # crest) groups = Inl e) \<and>
   (clusternames B self log = (Inl e, self', log') \<longrightarrow>
      self' = self \<and> clusternames_slot self' = None \<and>
      clusternames B2 self' log2 = clusternames_compute B2 self' log2) \<and>
   (clusterdetails B self log = (Inl e, self', log') \<longrightarrow>
      clusterdetails_slot self' = None \<and> grows self self' \<and>
      servergroups_slot self' = servergroups_slot self \<and>
      instances_by_region_slot self' = instances_by_region_slot self \<and>
      (clusternames_slot self \<noteq> None \<longrightarrow> self' = self) \<and>
      clusterdetails B2 self' log2 = clusterdetails_compute B2 self' log2) \<and>
   (servergroups B self log = (Inl e, self', log') \<longrightarrow>
      servergroups_slot self' = None \<and> grows self self' \<and>
      instances_by_region_slot self' = instances_by_region_slot self \<and>
      (clusterdetails_slot self \<noteq> None \<longrightarrow> self' = self) \<and>
      servergroups B2 self' log2 = servergroups_compute B2 self' log2) \<and>
   (instances_by_region B self log = (Inl e, self', log') \<longrightarrow>
      instances_by_region_slot self' = None \<and> grows self self' \<and>
      servergroups_slot self = None \<and> fst (servergroups B self log) = Inl e \<and>
      instances_by_region B2 self' log2 = instances_by_region_compute B2 self' log2)"
  by (intro conjI)
     (rule clusternames_request_fails,
      rule clusternames_account_missing,
      rule clusterdetails_names_fail,
      rule clusterdetails_request_fails,
      rule servergroups_details_fail,
      rule servergroups_extraction_fails,
      rule instances_by_region_groups_fail,
      rule element_name_missing,
      rule element_region_missing,
      rule element_instances_missing,
      rule element_instanceId_missing,
      rule clusters_serverGroups_missing,
      rule clusters_element_fails,
      rule clusternames_failed_read,
      rule clusterdetails_failed_read,
      rule servergroups_failed_read,
      rule instances_by_region_failed_read)

theorem stage_failure_propagates_witness:
  "clusternames other_account_backend checkout [] =
     (Inl (KeyError ''test''), checkout, [CLUSTERS_URL ''checkout'']) \<and>
   clusterdetails timeout_backend checkout [] =
     (Inl (RequestError ''timeout''),
      checkout\<lparr>clusternames_slot := Some [''checkout-test-v001'']\<rparr>,
      [CLUSTERS_URL ''checkout'', CLUSTERDETAILS_URL ''checkout'' ''test'' ''checkout-test-v001'']) \<and>
   clusterdetails_slot (checkout\<lparr>clusternames_slot := Some [''checkout-test-v001'']\<rparr>) = None \<and>
   fst (servergroups no_region_backend checkout []) = Inl (KeyError ''region'') \<and>
   servergroups_slot (fst (snd (servergroups no_region_backend checkout []))) = None \<and>
   fst (instances_by_region no_region_backend checkout []) = Inl (KeyError ''region'') \<and>
   instances_by_region_slot (fst (snd (instances_by_region no_region_backend checkout []))) = None"
proof -
  have n: "clusternames_slot checkout = None" "clusterdetails_slot checkout = None"
    "servergroups_slot checkout = None" "instances_by_region_slot checkout = None"
    by (simp_all add: checkout_def App_init_def)
  have nm: "App.name checkout = ''checkout''" "Account.name (account checkout) = ''test''"
    by (simp_all add: checkout_def App_init_def)
  have h1: "clusternames_slot checkout = None \<and>
     get_clusters other_account_backend [] (CLUSTERS_URL (App.name checkout))
       = Inr [(''prod'', [''checkout-prod-v001''])] \<and>
     map_of [(''prod'', [''checkout-prod-v001''])] (Account.name (account checkout)) = None"
    by (simp add: n nm other_account_backend_def constant_backend_def)
  from stage_failure_propagates
    [where B = other_account_backend and self = checkout and log = "[]"
      and body = "[(''prod'', [''checkout-prod-v001''])]",
      THEN conjunct2, THEN conjunct1, THEN mp, OF h1]
  have 1: "clusternames other_account_backend checkout [] =
     (Inl (KeyError ''test''), checkout, [CLUSTERS_URL ''checkout''])"
    by (simp add: nm)
  have h2: "clusterdetails_slot checkout = None \<and>
     clusternames timeout_backend checkout [] =
       (Inr [''checkout-test-v001''],
        checkout\<lparr>clusternames_slot := Some [''checkout-test-v001'']\<rparr>,
        [CLUSTERS_URL ''checkout'']) \<and>
     0 < length [''checkout-test-v001''] \<and>
     (\<forall>j<0::nat. \<not> isl (get_clusterdetails timeout_backend
        ([CLUSTERS_URL ''checkout''] @ map (detail_url checkout) (take j [''checkout-test-v001'']))
        (detail_url checkout ([''checkout-test-v001''] ! j)))) \<and>
     get_clusterdetails timeout_backend
        ([CLUSTERS_URL ''checkout''] @ map (detail_url checkout) (take 0 [''checkout-test-v001'']))
        (detail_url checkout ([''checkout-test-v001''] ! 0)) = Inl (RequestError ''timeout'')"
    using timeout_clusternames by (simp add: n timeout_backend_def constant_backend_def)
  from stage_failure_propagates
    [where B = timeout_backend and self = checkout and log = "[]"
      and names = "[''checkout-test-v001'']"
      and ?self1.0 = "checkout\<lparr>clusternames_slot := Some [''checkout-test-v001'']\<rparr>"
      and ?log1.0 = "[CLUSTERS_URL ''checkout'']" and i = 0
      and e = "RequestError ''timeout''",
      THEN conjunct2, THEN conjunct2, THEN conjunct2, THEN conjunct1, THEN mp, OF h2]
  have 2: "clusterdetails timeout_backend checkout [] =
     (Inl (RequestError ''timeout''),
      checkout\<lparr>clusternames_slot := Some [''checkout-test-v001'']\<rparr>,
      [CLUSTERS_URL ''checkout'', CLUSTERDETAILS_URL ''checkout'' ''test'' ''checkout-test-v001''])"
    "clusterdetails_slot (checkout\<lparr>clusternames_slot := Some [''checkout-test-v001'']\<rparr>) = None"
    by (simp_all add: detail_url_def nm)
  let ?d = "[(''checkout-test-v001'',
          \<lparr>key_serverGroups = Some
            [\<lparr>key_name = Some ''checkout-test-v001'', key_region = None,
              key_instances = Some [\<lparr>key_instanceId = Some ''i-aaa''\<rparr>]\<rparr>]\<rparr>)]"
  let ?s = "checkout\<lparr>clusternames_slot := Some [''checkout-test-v001''],
        clusterdetails_slot := Some ?d\<rparr>"
  let ?l = "[CLUSTERS_URL ''checkout'',
             CLUSTERDETAILS_URL ''checkout'' ''test'' ''checkout-test-v001'']"
  have c0: "extract_clusters ?d (map fst ?d) [] = Inl (KeyError ''region'')"
    by (simp add: getitem_def subscript_def extract_element_def)
  have h3: "servergroups_slot checkout = None \<and>
     clusterdetails no_region_backend checkout [] = (Inr ?d, ?s, ?l) \<and>
     extract_clusters ?d (map fst ?d) [] = Inl (KeyError ''region'')"
    using no_region_clusterdetails c0 n by simp
  from stage_failure_propagates
    [where B = no_region_backend and self = checkout and log = "[]" and details = ?d
      and e = "KeyError ''region''" and ?self2.0 = ?s and ?log2.0 = ?l,
      THEN conjunct2, THEN conjunct2, THEN conjunct2, THEN conjunct2, THEN conjunct2,
      THEN conjunct1, THEN mp, OF h3]
  have 3: "servergroups no_region_backend checkout [] = (Inl (KeyError ''region''), ?s, ?l)"
    "servergroups_slot ?s = None"
    by simp_all
  have h4: "instances_by_region_slot checkout = None \<and>
     servergroups no_region_backend checkout [] = (Inl (KeyError ''region''), ?s, ?l)"
    using 3(1) n by simp
  from stage_failure_propagates
    [where B = no_region_backend and self = checkout and log = "[]"
      and e = "KeyError ''region''" and ?self3.0 = ?s and ?log3.0 = ?l,
      THEN conjunct2, THEN conjunct2, THEN conjunct2, THEN conjunct2, THEN conjunct2,
      THEN conjunct2, THEN conjunct1, THEN mp, OF h4]
  have 4: "instances_by_region no_region_backend checkout [] = (Inl (KeyError ''region''), ?s, ?l)"
    "instances_by_region_slot ?s = None"
    by simp_all
  show ?thesis
    by (simp only: 1 2 3 4 fst_conv snd_conv simp_thms)
qed

section \<open>Cluster details\<close>

text \<open>
  C6. When the read of \<^verbatim>\<open>clusterdetails\<close> computes its value, the keys of the
  dictionary are exactly the cluster names of the first stage; after the requests of the
  first stage the log grows by one details request per entry of the list of cluster names,
  in list order, and by nothing else; and each cluster name is mapped to the body that the
  service returned to its request (to the last one, should a name occur twice in the
  list).
\<close>

theorem clusterdetails_keys_and_fetches:
  assumes "clusterdetails_slot self = None"
    and "clusterdetails B self log = (Inr details, self', log')"
  shows "\<exists>names log1.
     fst (clusternames B self log) = Inr names \<and> snd (snd (clusternames B self log)) = log1 \<and>
     clusternames_slot self' = Some names \<and> clusterdetails_slot self' = Some details \<and>
     fst ` set details = set names \<and>
     log' = log1 @ map (detail_url self) names \<and>
     (\<forall>i<length names. names ! i \<notin> set (drop (Suc i) names) \<longrightarrow>
        (\<exists>body. get_clusterdetails B (log1 @ map (detail_url self) (take i names))
                   (detail_url self (names ! i)) = Inr body
               \<and> map_of details (names ! i) = Some body))"
  using assms(2)
proof (cases rule: clusterdetails_cases)
  case (cached d)
  with assms(1) show ?thesis by simp
next
  case (computed names self1 log1 d)
  from clusternames_frame [OF computed(2)]
  have u: "detail_url self1 = detail_url self" by (auto simp: detail_url_def grows_def)
  from computed(3) have f: "fetch_details B self1 names [] log1 = (Inr details, log')"
    using computed(4) by simp
  have "fst (clusternames B self log) = Inr names" "snd (snd (clusternames B self log)) = log1"
    using computed(2) by simp_all
  moreover have "clusternames_slot self' = Some names"
    using clusternames_sets_slot [OF computed(2)] computed(5) by simp
  moreover have "clusterdetails_slot self' = Some details" using computed(4,5) by simp
  moreover have "fst ` set details = set names" using fetch_details_keys [OF f] by simp
  moreover have "log' = log1 @ map (detail_url self) names"
    using fetch_details_log [OF f] u by simp
  moreover have "\<forall>i<length names. names ! i \<notin> set (drop (Suc i) names) \<longrightarrow>
        (\<exists>body. get_clusterdetails B (log1 @ map (detail_url self) (take i names))
                   (detail_url self (names ! i)) = Inr body
               \<and> map_of details (names ! i) = Some body)"
    using fetch_details_bodies [OF f] u by simp
  ultimately show ?thesis by blast
qed simp_all

theorem clusterdetails_keys_and_fetches_witness:
  "clusterdetails_slot checkout = None \<and>
   clusterdetails two_cluster_backend checkout [] =
     (Inr [(''checkout-test-v001'', checkout_detail), (''checkout-test-v002'', checkout_detail)],
      checkout\<lparr>clusternames_slot := Some [''checkout-test-v001'', ''checkout-test-v002''],
        clusterdetails_slot := Some [(''checkout-test-v001'', checkout_detail),
                                     (''checkout-test-v002'', checkout_detail)]\<rparr>,
      [CLUSTERS_URL ''checkout'',
       CLUSTERDETAILS_URL ''checkout'' ''test'' ''checkout-test-v001'',
       CLUSTERDETAILS_URL ''checkout'' ''test'' ''checkout-test-v002'']) \<and>
   (\<exists>names log1.
      fst (clusternames two_cluster_backend checkout []) = Inr names \<and>
      snd (snd (clusternames two_cluster_backend checkout [])) = log1 \<and>
      fst ` set [(''checkout-test-v001'', checkout_detail), (''checkout-test-v002'', checkout_detail)]
        = set names \<and>
      [CLUSTERS_URL ''checkout'',
       CLUSTERDETAILS_URL ''checkout'' ''test'' ''checkout-test-v001'',
       CLUSTERDETAILS_URL ''checkout'' ''test'' ''checkout-test-v002'']
        = log1 @ map (detail_url checkout) names)"
proof -
  have h: "clusterdetails_slot checkout = None" by (simp add: checkout_def App_init_def)
  from clusterdetails_keys_and_fetches [OF h two_cluster_clusterdetails]
  obtain names log1 where
    "fst (clusternames two_cluster_backend checkout []) = Inr names"
    "snd (snd (clusternames two_cluster_backend checkout [])) = log1"
    "fst ` set [(''checkout-test-v001'', checkout_detail), (''checkout-test-v002'', checkout_detail)]
        = set names"
    "[CLUSTERS_URL ''checkout'',
       CLUSTERDETAILS_URL ''checkout'' ''test'' ''checkout-test-v001'',
       CLUSTERDETAILS_URL ''checkout'' ''test'' ''checkout-test-v002'']
        = log1 @ map (detail_url checkout) names"
    by blast
  with h two_cluster_clusterdetails show ?thesis by blast
qed

section \<open>Pipeline order\<close>

text \<open>
  C7. On a newly constructed object, reading \<^verbatim>\<open>instances_by_region\<close> directly
  gives the same result, the same object and the same request log as reading
  \<^verbatim>\<open>clusternames\<close>, \<^verbatim>\<open>clusterdetails\<close>, \<^verbatim>\<open>servergroups\<close> and
  \<^verbatim>\<open>instances_by_region\<close> in this order, also when one of them raises. When it
  returns, all four stages have run: all four attributes are set, the server groups are
  the ones extracted from the cached details, the value is their regrouping, and the log
  has grown by the listing request and one details request per cluster name.
\<close>

theorem direct_access_runs_pipeline:
  "instances_by_region B (App_init nm acct) log = in_order B (App_init nm acct) log \<and>
   (instances_by_region B (App_init nm acct) log = (Inr v, self', log') \<longrightarrow>
      (\<exists>names details groups.
         self' = \<lparr>name = nm, account = acct, clusternames_slot = Some names,
                  clusterdetails_slot = Some details, servergroups_slot = Some groups,
                  instances_by_region_slot = Some v\<rparr> \<and>
         extract_clusters details (map fst details) [] = Inr groups \<and>
         regroup groups = Inr v \<and>
         log' = log @ CLUSTERS_URL nm # map (CLUSTERDETAILS_URL nm (Account.name acct)) names))"
proof
  show "instances_by_region B (App_init nm acct) log = in_order B (App_init nm acct) log"
    by (rule in_order_eq [symmetric]) (simp_all add: App_init_def)
  show "instances_by_region B (App_init nm acct) log = (Inr v, self', log') \<longrightarrow>
      (\<exists>names details groups.
         self' = \<lparr>name = nm, account = acct, clusternames_slot = Some names,
                  clusterdetails_slot = Some details, servergroups_slot = Some groups,
                  instances_by_region_slot = Some v\<rparr> \<and>
         extract_clusters details (map fst details) [] = Inr groups \<and>
         regroup groups = Inr v \<and>
         log' = log @ CLUSTERS_URL nm # map (CLUSTERDETAILS_URL nm (Account.name acct)) names)"
    using pipeline_success by blast
qed

theorem direct_access_runs_pipeline_witness:
  "instances_by_region checkout_backend (App_init ''checkout'' \<lparr>Account.name = ''test''\<rparr>) [] =
     (Inr [(''checkout-test-v001'', [''i-aaa'', ''i-bbb''])],
      \<lparr>name = ''checkout'', account = \<lparr>Account.name = ''test''\<rparr>,
        clusternames_slot = Some [''checkout-test-v001''],
        clusterdetails_slot = Some [(''checkout-test-v001'', checkout_detail)],
        servergroups_slot = Some [(''us-east-1'', ''checkout-test-v001'', [''i-aaa'', ''i-bbb''])],
        instances_by_region_slot = Some [(''checkout-test-v001'', [''i-aaa'', ''i-bbb''])]\<rparr>,
      [CLUSTERS_URL ''checkout'', CLUSTERDETAILS_URL ''checkout'' ''test'' ''checkout-test-v001''])
   \<and>
   in_order checkout_backend (App_init ''checkout'' \<lparr>Account.name = ''test''\<rparr>) [] =
     (Inr [(''checkout-test-v001'', [''i-aaa'', ''i-bbb''])],
      \<lparr>name = ''checkout'', account = \<lparr>Account.name = ''test''\<rparr>,
        clusternames_slot = Some [''checkout-test-v001''],
        clusterdetails_slot = Some [(''checkout-test-v001'', checkout_detail)],
        servergroups_slot = Some [(''us-east-1'', ''checkout-test-v001'', [''i-aaa'', ''i-bbb''])],
        instances_by_region_slot = Some [(''checkout-test-v001'', [''i-aaa'', ''i-bbb''])]\<rparr>,
      [CLUSTERS_URL ''checkout'', CLUSTERDETAILS_URL ''checkout'' ''test'' ''checkout-test-v001''])"
proof -
  have e: "instances_by_region checkout_backend
             (App_init ''checkout'' \<lparr>Account.name = ''test''\<rparr>) [] =
     (Inr [(''checkout-test-v001'', [''i-aaa'', ''i-bbb''])],
      \<lparr>name = ''checkout'', account = \<lparr>Account.name = ''test''\<rparr>,
        clusternames_slot = Some [''checkout-test-v001''],
        clusterdetails_slot = Some [(''checkout-test-v001'', checkout_detail)],
        servergroups_slot = Some [(''us-east-1'', ''checkout-test-v001'', [''i-aaa'', ''i-bbb''])],
        instances_by_region_slot = Some [(''checkout-test-v001'', [''i-aaa'', ''i-bbb''])]\<rparr>,
      [CLUSTERS_URL ''checkout'', CLUSTERDETAILS_URL ''checkout'' ''test'' ''checkout-test-v001''])"
    using checkout_instances_by_region by (simp add: checkout_def App_init_def)
  from direct_access_runs_pipeline
    [of checkout_backend "''checkout''" "\<lparr>Account.name = ''test''\<rparr>" "[]"] e
  show ?thesis by simp
qed

end
